theory Spec2Isabelle
  imports Complex_Main "HOL-Library.Sublist"
begin

section \<open>Linear epistasis models (epistasis/models/linear.py)\<close>

text \<open>
  The numeric arrays of the program hold floating-point numbers. They are modelled here
  in exact arithmetic: every entry is a \<^typ>\<open>real\<close>. A one-dimensional array is a list,
  a two-dimensional array the list of its rows. Every exception of the Python code is a
  value of the type \<open>error\<close>, and a function that can raise returns \<open>error + 'a\<close>.
\<close>

type_synonym vector = "real list"
type_synonym matrix = "real list list"

datatype error =
    IndexError
  | TypeError
  | ValueError
  | ZeroDivisionError
  | OverflowError
  | LinAlgError
  | ConfigurationError
  | DataValidityError

subsection \<open>Unique epistasis functions\<close>

text \<open>
  The weight of line 34, \<^verbatim>\<open>((-1)**epistasis)/(2**(n-epistasis))\<close>, where
  \<^verbatim>\<open>epistasis\<close> is the float of the number of characters \<open>1\<close> of the genotype. The
  power of 2 has a float exponent: Python raises OverflowError when the exponent is
  1024 or more; when it is -1075 or less the power underflows to 0.0 and the division
  raises ZeroDivisionError. From 0 to 1023 the power and the quotient are powers of two
  that the floats hold exactly. An exponent from -1074 to -1 needs a genotype with more
  characters \<open>1\<close> than the first genotype is long; the value is the exact quotient here,
  where the floats give infinity from -1024 downwards.
\<close>

definition hadamard_weight :: "nat \<Rightarrow> string \<Rightarrow> error + real" where
  "hadamard_weight n genotype =
     (let epistasis = count_list genotype (CHR ''1'')
      in if 1024 \<le> int n - int epistasis then Inl OverflowError
         else if int n - int epistasis \<le> - 1075 then Inl ZeroDivisionError
         else Inr (((- 1) ^ epistasis) / (2 powi (int n - int epistasis))))"

text \<open>
  The loop of lines 32 to 34 over \<^verbatim>\<open>range(l)\<close>: it writes the diagonal entry of row
  \<open>g\<close>, and an exception of line 34 ends it.
\<close>

fun hadamard_loop :: "nat \<Rightarrow> string list \<Rightarrow> nat list \<Rightarrow> matrix \<Rightarrow> error + matrix" where
  "hadamard_loop n genotypes [] weights = Inr weights"
| "hadamard_loop n genotypes (g # gs) weights =
     (case hadamard_weight n (genotypes ! g) of
        Inl e \<Rightarrow> Inl e
      | Inr v \<Rightarrow> hadamard_loop n genotypes gs (weights[g := (weights ! g)[g := v]]))"

text \<open>
  \<^verbatim>\<open>hadamard_weight_vector\<close>, lines 27 to 35. \<^verbatim>\<open>genotypes[0]\<close> raises IndexError on
  an empty list; \<^verbatim>\<open>genotypes[g].count("1")\<close> counts the characters \<open>1\<close>.
\<close>

definition hadamard_weight_vector :: "string list \<Rightarrow> error + matrix" where
  "hadamard_weight_vector genotypes =
     (case genotypes of
        [] \<Rightarrow> Inl IndexError
      | g0 # _ \<Rightarrow>
          (let l = length genotypes;
               n = length g0;
               weights = replicate l (replicate l (0::real))
           in hadamard_loop n genotypes [0..<l] weights))"

text \<open>
  \<^verbatim>\<open>cut_interaction_labels\<close>, lines 37 to 39: the list comprehension walks the labels
  in order and keeps those with \<^verbatim>\<open>len(l) <= order\<close>. The order is a Python integer
  and may be negative.
\<close>

fun cut_interaction_labels :: "'a list list \<Rightarrow> int \<Rightarrow> 'a list list" where
  "cut_interaction_labels [] order = []"
| "cut_interaction_labels (l # labels) order =
     (if int (length l) \<le> order
      then l # cut_interaction_labels labels order
      else cut_interaction_labels labels order)"


subsection \<open>The numpy operations the models use\<close>

text \<open>
  \<^verbatim>\<open>np.dot(M, v)\<close> of a two-dimensional \<open>M\<close> and a one-dimensional \<open>v\<close>: the vector of
  the dot products of the rows of \<open>M\<close> with \<open>v\<close>; ValueError when the shapes are not
  aligned.
\<close>

definition dotp :: "vector \<Rightarrow> vector \<Rightarrow> real" where
  "dotp u v = sum_list (map2 (*) u v)"

definition mat_vec :: "matrix \<Rightarrow> vector \<Rightarrow> vector" where
  "mat_vec M v = map (\<lambda>r. dotp r v) M"

definition np_dot :: "matrix \<Rightarrow> vector \<Rightarrow> error + vector" where
  "np_dot M v =
     (if list_all (\<lambda>r. length r = length v) M
      then Inr (mat_vec M v)
      else Inl ValueError)"

text \<open>
  \<^verbatim>\<open>np.linalg.inv\<close> in exact arithmetic: Gauss-Jordan elimination on the matrix
  extended by the identity. It raises LinAlgError when the array is not square and when
  a column has no pivot (the matrix is singular). The library picks the pivot of largest
  magnitude, which matters for rounding only; here the first non-zero entry is taken,
  and the inverse, being unique, is the same. A design matrix has at least one column
  (the intercept), so an array without rows is not square.
\<close>

definition unit_vec :: "nat \<Rightarrow> nat \<Rightarrow> vector" where
  "unit_vec n i = map (\<lambda>j. if j = i then 1 else 0) [0..<n]"

definition augment :: "matrix \<Rightarrow> matrix" where
  "augment A = map (\<lambda>i. A ! i @ unit_vec (length A) i) [0..<length A]"

definition scale_row :: "real \<Rightarrow> vector \<Rightarrow> vector" where
  "scale_row c r = map ((*) c) r"

definition sub_scaled_row :: "real \<Rightarrow> vector \<Rightarrow> vector \<Rightarrow> vector" where
  "sub_scaled_row c p r = map2 (\<lambda>x y. x - c * y) r p"

definition swap_rows :: "nat \<Rightarrow> nat \<Rightarrow> matrix \<Rightarrow> matrix" where
  "swap_rows i j M = M[i := M ! j, j := M ! i]"

definition find_pivot :: "nat \<Rightarrow> matrix \<Rightarrow> nat option" where
  "find_pivot k M = find (\<lambda>p. M ! p ! k \<noteq> 0) [k..<length M]"

definition eliminate_column :: "nat \<Rightarrow> matrix \<Rightarrow> matrix" where
  "eliminate_column k M =
     map (\<lambda>i. if i = k then M ! k else sub_scaled_row (M ! i ! k) (M ! k) (M ! i))
       [0..<length M]"

definition pivot_step :: "nat \<Rightarrow> matrix \<Rightarrow> matrix option" where
  "pivot_step k M =
     (case find_pivot k M of
        None \<Rightarrow> None
      | Some p \<Rightarrow>
          (let M1 = swap_rows k p M;
               M2 = M1[k := scale_row (1 / (M1 ! k ! k)) (M1 ! k)]
           in Some (eliminate_column k M2)))"

fun gauss_jordan :: "nat list \<Rightarrow> matrix \<Rightarrow> matrix option" where
  "gauss_jordan [] M = Some M"
| "gauss_jordan (k # ks) M =
     (case pivot_step k M of None \<Rightarrow> None | Some M' \<Rightarrow> gauss_jordan ks M')"

definition linalg_inv :: "matrix \<Rightarrow> error + matrix" where
  "linalg_inv A =
     (let n = length A
      in if n = 0 \<or> \<not> list_all (\<lambda>r. length r = n) A then Inl LinAlgError
         else (case gauss_jordan [0..<n] (augment A) of
                 None \<Rightarrow> Inl LinAlgError
               | Some M \<Rightarrow> Inr (map (drop n) M)))"

text \<open>The products the properties are stated with: matrix by matrix, and the identity.\<close>

definition column :: "nat \<Rightarrow> matrix \<Rightarrow> vector" where
  "column j M = map (\<lambda>r. r ! j) M"

definition mat_mul :: "matrix \<Rightarrow> matrix \<Rightarrow> matrix" where
  "mat_mul A B =
     (let ncols = (case B of [] \<Rightarrow> 0 | b # _ \<Rightarrow> length b)
      in map (\<lambda>r. map (\<lambda>j. dotp r (column j B)) [0..<ncols]) A)"

definition identity_matrix :: "nat \<Rightarrow> matrix" where
  "identity_matrix n = map (unit_vec n) [0..<n]"

subsection \<open>The parts of the package the models are built on\<close>

text \<open>
  Three parts of the package are not among the source files: the interaction enumerator
  and the base class (epistasis/models/base.py) and the design matrix builder
  (epistasis/decomposition.py). Each is modelled from the sections of the spec that
  describe it. The binary encoding of the genotypes and the logarithmic transform belong
  to the external genotype-phenotype source, so a constructor receives the genotypes
  already encoded and the phenotypes as they are to be fitted.
\<close>

text \<open>
  Modelled from the spec: the labels of one size among those the interaction
  enumerator lists (section 4.1): the strictly increasing tuples of \<open>r\<close> sites, in
  lexicographic order.
\<close>

fun combinations :: "'a list \<Rightarrow> nat \<Rightarrow> 'a list list" where
  "combinations xs 0 = [[]]"
| "combinations [] (Suc r) = []"
| "combinations (x # xs) (Suc r) =
     map ((#) x) (combinations xs r) @ combinations xs (Suc r)"

text \<open>
  Modelled from the spec: the interaction enumerator behind
  \<^verbatim>\<open>BaseModel._construct_interactions\<close>. Section 4.1: for \<open>n\<close> sites and order \<open>k\<close> it
  lists all labels of size 0 to \<open>k\<close> drawn from 1 to \<open>n\<close>, by ascending size and
  lexicographically within a size; the empty label is the intercept; \<open>k > n\<close> fails with
  a configuration error.
\<close>

definition enumerate_labels :: "nat \<Rightarrow> nat \<Rightarrow> error + nat list list" where
  "enumerate_labels n k =
     (if k > n then Inl ConfigurationError
      else Inr (concat (map (combinations [1..<Suc n]) [0..<Suc k])))"

text \<open>
  Modelled from the spec: the encoding argument of \<^verbatim>\<open>generate_dv_matrix\<close>, a
  dictionary from characters to numbers (section 4.4, step 5), and its lookup. The
  lookup is only used on characters that \<open>valid_genotype\<close> has found in the dictionary.
\<close>

type_synonym encoding = "(char \<times> real) list"

definition encode :: "encoding \<Rightarrow> char \<Rightarrow> real" where
  "encode enc c = (case map_of enc c of Some v \<Rightarrow> v | None \<Rightarrow> 0)"

text \<open>
  Modelled from the spec: the validity check of \<^verbatim>\<open>generate_dv_matrix\<close>. Section 4.2:
  a character outside the encoding fails with a data-validity error; so does a label
  that names a site outside the genotype (sites count from 1).
\<close>

definition valid_genotype :: "encoding \<Rightarrow> nat list list \<Rightarrow> string \<Rightarrow> bool" where
  "valid_genotype enc labels g \<longleftrightarrow>
     list_all (\<lambda>c. map_of enc c \<noteq> None) g
     \<and> list_all (list_all (\<lambda>s. 1 \<le> s \<and> s \<le> length g)) labels"

text \<open>
  Modelled from the spec: one entry of the matrix of \<^verbatim>\<open>generate_dv_matrix\<close>.
  Section 4.2: the product over the sites of the label of the encoded character of the
  genotype at that site, so the empty label gives 1.
\<close>

definition dv_entry :: "encoding \<Rightarrow> string \<Rightarrow> nat list \<Rightarrow> real" where
  "dv_entry enc g label = prod_list (map (\<lambda>s. encode enc (g ! (s - 1))) label)"

text \<open>
  Modelled from the spec: \<^verbatim>\<open>generate_dv_matrix\<close>. Section 4.2: one row per genotype
  and one column per label, in the given orders, or a data-validity error.
\<close>

definition generate_dv_matrix :: "string list \<Rightarrow> nat list list \<Rightarrow> encoding \<Rightarrow> error + matrix" where
  "generate_dv_matrix genotypes labels enc =
     (if list_all (valid_genotype enc labels) genotypes
      then Inr (map (\<lambda>g. map (dv_entry enc g) labels) genotypes)
      else Inl DataValidityError)"

text \<open>
  Modelled from the spec: the state of a model, the attributes of \<^verbatim>\<open>BaseModel\<close> and
  of its \<^verbatim>\<open>Binary\<close> and \<^verbatim>\<open>Interactions\<close> parts that linear.py reads and writes.
  Sections 3 and 6: a model owns the wildtype, the binary-encoded genotypes, the
  phenotype vector, the optional error vector (its absence is a state of its own, not a
  vector of zeros), the label list, \<open>X\<close>, the inverse of \<open>X\<close> and the order;
  \<open>self.length\<close> is the sequence length and \<open>self.n\<close> the number of genotypes. The
  coefficient and error vectors of the interactions are unset until \<open>fit\<close> and
  \<open>fit_error\<close> write them.
\<close>

record model =
  self_wildtype :: string
  Binary_genotypes :: "string list"
  Binary_phenotypes :: vector
  Binary_errors :: "vector option"
  self_length :: nat
  self_n :: nat
  self_order :: nat
  Interactions_labels :: "nat list list"
  Interactions_values :: "vector option"
  Interactions_errors :: "vector option"
  self_X :: matrix
  self_X_inv :: matrix

text \<open>
  Modelled from the spec: \<^verbatim>\<open>BaseModel.__init__\<close>, which stores what the
  genotype-phenotype source supplies (section 4.4, steps 1 and 2). The order, the
  labels, \<open>X\<close> and its inverse are written by the constructors of linear.py before they
  return; until then they hold an empty value here.
\<close>

definition BaseModel_init :: "string \<Rightarrow> string list \<Rightarrow> vector \<Rightarrow> vector option \<Rightarrow> model" where
  "BaseModel_init wildtype genotypes phenotypes errors =
     \<lparr> self_wildtype = wildtype,
       Binary_genotypes = genotypes,
       Binary_phenotypes = phenotypes,
       Binary_errors = errors,
       self_length = length wildtype,
       self_n = length genotypes,
       self_order = 0,
       Interactions_labels = [],
       Interactions_values = None,
       Interactions_errors = None,
       self_X = [],
       self_X_inv = [] \<rparr>"

text \<open>
  Modelled from the spec: \<^verbatim>\<open>BaseModel._construct_interactions\<close>, which enumerates
  the labels for the sequence length and the order of the model (section 4.4, step 4).
\<close>

definition construct_interactions :: "model \<Rightarrow> error + model" where
  "construct_interactions self =
     (case enumerate_labels (self_length self) (self_order self) of
        Inl e \<Rightarrow> Inl e
      | Inr labels \<Rightarrow> Inr (self\<lparr>Interactions_labels := labels\<rparr>))"

subsection \<open>Epistasis mapping classes\<close>

text \<open>
  \<^verbatim>\<open>LocalEpistasisModel.__init__\<close>, lines 47 to 75: the base constructor, the order,
  the interactions, then \<open>X\<close> under the encoding \<^verbatim>\<open>{"1": 1, "0": 0}\<close> and its inverse.
  An exception of any step leaves no model.
\<close>

definition LocalEpistasisModel_init ::
  "string \<Rightarrow> string list \<Rightarrow> vector \<Rightarrow> vector option \<Rightarrow> error + model" where
  "LocalEpistasisModel_init wildtype genotypes phenotypes errors =
     (let self = BaseModel_init wildtype genotypes phenotypes errors;
          self = self\<lparr>self_order := self_length self\<rparr>
      in case construct_interactions self of
           Inl e \<Rightarrow> Inl e
         | Inr self \<Rightarrow>
             (case generate_dv_matrix (Binary_genotypes self) (Interactions_labels self)
                     [(CHR ''1'', 1), (CHR ''0'', 0)] of
                Inl e \<Rightarrow> Inl e
              | Inr X \<Rightarrow>
                  (case linalg_inv X of
                     Inl e \<Rightarrow> Inl e
                   | Inr X_inv \<Rightarrow> Inr (self\<lparr>self_X := X, self_X_inv := X_inv\<rparr>))))"

text \<open>\<^verbatim>\<open>LocalEpistasisModel.fit\<close>, lines 77 to 81.\<close>

definition LocalEpistasisModel_fit :: "model \<Rightarrow> error + model" where
  "LocalEpistasisModel_fit self =
     (case np_dot (self_X_inv self) (Binary_phenotypes self) of
        Inl e \<Rightarrow> Inl e
      | Inr values \<Rightarrow> Inr (self\<lparr>Interactions_values := Some values\<rparr>))"

text \<open>
  \<^verbatim>\<open>LocalEpistasisModel.fit_error\<close>, lines 83 to 88. Without phenotype errors
  \<^verbatim>\<open>self.Binary.errors**2\<close> has no number to square and raises.
\<close>

definition LocalEpistasisModel_fit_error :: "model \<Rightarrow> error + model" where
  "LocalEpistasisModel_fit_error self =
     (case Binary_errors self of
        None \<Rightarrow> Inl TypeError
      | Some errors \<Rightarrow>
          (case np_dot (self_X self) (map (\<lambda>e. e ^ 2) errors) of
             Inl e \<Rightarrow> Inl e
           | Inr v \<Rightarrow> Inr (self\<lparr>Interactions_errors := Some (map sqrt v)\<rparr>)))"

text \<open>
  \<^verbatim>\<open>GlobalEpistasisModel.__init__\<close>, lines 93 to 121: as above, with the encoding
  \<^verbatim>\<open>{"1": 1, "0": -1}\<close>.
\<close>

definition GlobalEpistasisModel_init ::
  "string \<Rightarrow> string list \<Rightarrow> vector \<Rightarrow> vector option \<Rightarrow> error + model" where
  "GlobalEpistasisModel_init wildtype genotypes phenotypes errors =
     (let self = BaseModel_init wildtype genotypes phenotypes errors;
          self = self\<lparr>self_order := self_length self\<rparr>
      in case construct_interactions self of
           Inl e \<Rightarrow> Inl e
         | Inr self \<Rightarrow>
             (case generate_dv_matrix (Binary_genotypes self) (Interactions_labels self)
                     [(CHR ''1'', 1), (CHR ''0'', - 1)] of
                Inl e \<Rightarrow> Inl e
              | Inr X \<Rightarrow>
                  (case linalg_inv X of
                     Inl e \<Rightarrow> Inl e
                   | Inr X_inv \<Rightarrow> Inr (self\<lparr>self_X := X, self_X_inv := X_inv\<rparr>))))"

text \<open>
  \<^verbatim>\<open>GlobalEpistasisModel.fit\<close>, lines 123 to 127. The division \<^verbatim>\<open>1/(self.n)\<close> is
  the true division of Python 3 and is evaluated first.
\<close>

definition GlobalEpistasisModel_fit :: "model \<Rightarrow> error + model" where
  "GlobalEpistasisModel_fit self =
     (if self_n self = 0 then Inl ZeroDivisionError
      else (case np_dot (self_X_inv self) (Binary_phenotypes self) of
              Inl e \<Rightarrow> Inl e
            | Inr v \<Rightarrow>
                Inr (self\<lparr>Interactions_values :=
                            Some (map ((*) (1 / real (self_n self))) v)\<rparr>)))"

text \<open>
  \<^verbatim>\<open>GlobalEpistasisModel.fit_error\<close>, lines 130 to 134. The first argument of
  \<^verbatim>\<open>np.dot\<close>, \<^verbatim>\<open>(1/self.n)**2 * abs(self.X)\<close>, is evaluated before the second.
\<close>

definition GlobalEpistasisModel_fit_error :: "model \<Rightarrow> error + model" where
  "GlobalEpistasisModel_fit_error self =
     (if self_n self = 0 then Inl ZeroDivisionError
      else (case Binary_errors self of
              None \<Rightarrow> Inl TypeError
            | Some errors \<Rightarrow>
                (case np_dot (map (map (\<lambda>x. (1 / real (self_n self)) ^ 2 * \<bar>x\<bar>)) (self_X self))
                        (map (\<lambda>e. e ^ 2) errors) of
                   Inl e \<Rightarrow> Inl e
                 | Inr v \<Rightarrow> Inr (self\<lparr>Interactions_errors := Some (map sqrt v)\<rparr>))))"

subsection \<open>The calls of the methods, and sequences of method calls\<close>

text \<open>
  The calls a method makes to the functions that compute arrays: the matrix builder
  \<^verbatim>\<open>generate_dv_matrix\<close>, \<^verbatim>\<open>np.linalg.inv\<close> and \<^verbatim>\<open>np.dot\<close>. For each method of
  linear.py a second function follows the same control flow and lists, in order, the
  calls that are reached, so that how often \<open>X\<close> and its inverse are computed can be
  stated. The elementwise operations (squares, absolute values, roots, the scaling) are
  not listed.
\<close>

datatype library_call = Call_generate_dv_matrix | Call_linalg_inv | Call_dot

text \<open>
  The calls of \<^verbatim>\<open>LocalEpistasisModel.__init__\<close>: line 74 calls the matrix builder once
  the labels exist, and line 75 calls the inversion when the builder has returned.
\<close>

definition LocalEpistasisModel_init_calls ::
  "string \<Rightarrow> string list \<Rightarrow> vector \<Rightarrow> vector option \<Rightarrow> library_call list" where
  "LocalEpistasisModel_init_calls wildtype genotypes phenotypes errors =
     (let self = BaseModel_init wildtype genotypes phenotypes errors;
          self = self\<lparr>self_order := self_length self\<rparr>
      in case construct_interactions self of
           Inl e \<Rightarrow> []
         | Inr self \<Rightarrow>
             (case generate_dv_matrix (Binary_genotypes self) (Interactions_labels self)
                     [(CHR ''1'', 1), (CHR ''0'', 0)] of
                Inl e \<Rightarrow> [Call_generate_dv_matrix]
              | Inr X \<Rightarrow> [Call_generate_dv_matrix, Call_linalg_inv]))"

text \<open>
  The calls of \<^verbatim>\<open>LocalEpistasisModel.fit\<close>: the product of line 81.
\<close>

definition LocalEpistasisModel_fit_calls :: "model \<Rightarrow> library_call list" where
  "LocalEpistasisModel_fit_calls self = [Call_dot]"

text \<open>
  The calls of \<^verbatim>\<open>LocalEpistasisModel.fit_error\<close>: the product of line 88, reached
  when the errors could be squared.
\<close>

definition LocalEpistasisModel_fit_error_calls :: "model \<Rightarrow> library_call list" where
  "LocalEpistasisModel_fit_error_calls self =
     (case Binary_errors self of None \<Rightarrow> [] | Some errors \<Rightarrow> [Call_dot])"

text \<open>
  The calls of \<^verbatim>\<open>GlobalEpistasisModel.__init__\<close>, lines 120 and 121.
\<close>

definition GlobalEpistasisModel_init_calls ::
  "string \<Rightarrow> string list \<Rightarrow> vector \<Rightarrow> vector option \<Rightarrow> library_call list" where
  "GlobalEpistasisModel_init_calls wildtype genotypes phenotypes errors =
     (let self = BaseModel_init wildtype genotypes phenotypes errors;
          self = self\<lparr>self_order := self_length self\<rparr>
      in case construct_interactions self of
           Inl e \<Rightarrow> []
         | Inr self \<Rightarrow>
             (case generate_dv_matrix (Binary_genotypes self) (Interactions_labels self)
                     [(CHR ''1'', 1), (CHR ''0'', - 1)] of
                Inl e \<Rightarrow> [Call_generate_dv_matrix]
              | Inr X \<Rightarrow> [Call_generate_dv_matrix, Call_linalg_inv]))"

text \<open>
  The calls of \<^verbatim>\<open>GlobalEpistasisModel.fit\<close>: the product of line 127, reached when
  \<^verbatim>\<open>1/(self.n)\<close> has been computed.
\<close>

definition GlobalEpistasisModel_fit_calls :: "model \<Rightarrow> library_call list" where
  "GlobalEpistasisModel_fit_calls self = (if self_n self = 0 then [] else [Call_dot])"

text \<open>
  The calls of \<^verbatim>\<open>GlobalEpistasisModel.fit_error\<close>: the product of line 134, reached
  when both of its arguments have been computed.
\<close>

definition GlobalEpistasisModel_fit_error_calls :: "model \<Rightarrow> library_call list" where
  "GlobalEpistasisModel_fit_error_calls self =
     (if self_n self = 0 then []
      else (case Binary_errors self of None \<Rightarrow> [] | Some errors \<Rightarrow> [Call_dot]))"

text \<open>
  A caller of a constructed model invokes \<open>fit\<close> and \<open>fit_error\<close> any number of times
  in any order. A method that raises has assigned nothing (the assignment is the last
  step of each method), so the object is then as it was. \<open>after_methods\<close> is the object
  after a list of calls, \<open>calls_of_methods\<close> the calls made on the way.
\<close>

datatype method_call = Fit | Fit_error

fun LocalEpistasisModel_method :: "method_call \<Rightarrow> model \<Rightarrow> error + model" where
  "LocalEpistasisModel_method Fit = LocalEpistasisModel_fit"
| "LocalEpistasisModel_method Fit_error = LocalEpistasisModel_fit_error"

fun LocalEpistasisModel_method_calls :: "method_call \<Rightarrow> model \<Rightarrow> library_call list" where
  "LocalEpistasisModel_method_calls Fit = LocalEpistasisModel_fit_calls"
| "LocalEpistasisModel_method_calls Fit_error = LocalEpistasisModel_fit_error_calls"

fun GlobalEpistasisModel_method :: "method_call \<Rightarrow> model \<Rightarrow> error + model" where
  "GlobalEpistasisModel_method Fit = GlobalEpistasisModel_fit"
| "GlobalEpistasisModel_method Fit_error = GlobalEpistasisModel_fit_error"

fun GlobalEpistasisModel_method_calls :: "method_call \<Rightarrow> model \<Rightarrow> library_call list" where
  "GlobalEpistasisModel_method_calls Fit = GlobalEpistasisModel_fit_calls"
| "GlobalEpistasisModel_method_calls Fit_error = GlobalEpistasisModel_fit_error_calls"

fun after_methods :: "(method_call \<Rightarrow> model \<Rightarrow> error + model) \<Rightarrow> method_call list \<Rightarrow> model \<Rightarrow> model" where
  "after_methods run [] self = self"
| "after_methods run (c # cs) self =
     after_methods run cs (case run c self of Inl e \<Rightarrow> self | Inr self' \<Rightarrow> self')"

fun calls_of_methods ::
  "(method_call \<Rightarrow> model \<Rightarrow> error + model) \<Rightarrow> (method_call \<Rightarrow> model \<Rightarrow> library_call list)
     \<Rightarrow> method_call list \<Rightarrow> model \<Rightarrow> library_call list" where
  "calls_of_methods run calls [] self = []"
| "calls_of_methods run calls (c # cs) self =
     calls c self
       @ calls_of_methods run calls cs (case run c self of Inl e \<Rightarrow> self | Inr self' \<Rightarrow> self')"

subsection \<open>The construction and the test property as the spec words them\<close>

text \<open>
  The spec's design notes (section 9) describe the two variants as one component
  parameterised by the encoding. This is that component, written after the spec's
  protocol of section 4.4 (base constructor, order = sequence length, labels, \<open>X\<close>
  under the given encoding, inverse). It is compared below with the two constructors
  translated from the source.
\<close>

definition EpistasisModel_init ::
  "encoding \<Rightarrow> string \<Rightarrow> string list \<Rightarrow> vector \<Rightarrow> vector option \<Rightarrow> error + model" where
  "EpistasisModel_init enc wildtype genotypes phenotypes errors =
     (case enumerate_labels (length wildtype) (length wildtype) of
        Inl e \<Rightarrow> Inl e
      | Inr labels \<Rightarrow>
          (case generate_dv_matrix genotypes labels enc of
             Inl e \<Rightarrow> Inl e
           | Inr X \<Rightarrow>
               (case linalg_inv X of
                  Inl e \<Rightarrow> Inl e
                | Inr X_inv \<Rightarrow>
                    Inr \<lparr> self_wildtype = wildtype,
                          Binary_genotypes = genotypes,
                          Binary_phenotypes = phenotypes,
                          Binary_errors = errors,
                          self_length = length wildtype,
                          self_n = length genotypes,
                          self_order = length wildtype,
                          Interactions_labels = labels,
                          Interactions_values = None,
                          Interactions_errors = None,
                          self_X = X,
                          self_X_inv = X_inv \<rparr>)))"

text \<open>
  The round trip of the spec's testable properties (section 8),
  \<^verbatim>\<open>X . coefficients\<close>: the product of the design matrix with the fitted coefficient
  vector. \<open>and_then\<close> runs the next call when the previous one raised nothing.
\<close>

definition and_then :: "error + 'a \<Rightarrow> ('a \<Rightarrow> error + 'b) \<Rightarrow> error + 'b" where
  "and_then r f = (case r of Inl e \<Rightarrow> Inl e | Inr x \<Rightarrow> f x)"

definition X_dot_coefficients :: "model \<Rightarrow> error + vector" where
  "X_dot_coefficients self =
     (case Interactions_values self of
        None \<Rightarrow> Inl TypeError
      | Some coefficients \<Rightarrow> np_dot (self_X self) coefficients)"

section \<open>Properties\<close>

subsection \<open>Unique epistasis functions: the Hadamard weights\<close>

lemma fold_diagonal:
  assumes "m \<le> length w"
  shows "length (fold (\<lambda>g w. w[g := (w ! g)[g := f g]]) [0..<m] w) = length w
    \<and> (\<forall>i<length w. 
          fold (\<lambda>g w. w[g := (w ! g)[g := f g]]) [0..<m] w ! i = (if i < m then (w ! i)[i := f i] else w ! i))"
  using assms
proof (induction m)
  case 0
  then show ?case by simp
next
  case (Suc m)
  then show ?case by (auto simp: nth_list_update less_Suc_eq)
qed

lemma count_list_le_length: "count_list xs x \<le> length xs"
  by (induction xs) auto

lemma count_list_replicate_other: "x \<noteq> y \<Longrightarrow> count_list (replicate n x) y = 0"
  by (induction n) simp_all

lemma hadamard_weight_equal_length:
  assumes "length g = n" and "n - count_list g (CHR ''1'') \<le> 1023"
  shows "hadamard_weight n g =
           Inr ((- 1) ^ count_list g (CHR ''1'') / 2 ^ (n - count_list g (CHR ''1'')))"
proof -
  have "count_list g (CHR ''1'') \<le> n" using assms(1) count_list_le_length [of g "CHR ''1''"] by simp
  then have eq: "int n - int (count_list g (CHR ''1'')) = int (n - count_list g (CHR ''1''))"
    by simp
  have "\<not> 1024 \<le> int (n - count_list g (CHR ''1''))"
    and "\<not> int (n - count_list g (CHR ''1'')) \<le> - 1075"
    using assms(2) by simp_all
  then show ?thesis
    unfolding hadamard_weight_def Let_def eq by (simp only: power_int_of_nat if_False)
qed

lemma hadamard_weight_overflow:
  assumes "length g = n" and "1024 \<le> n - count_list g (CHR ''1'')"
  shows "hadamard_weight n g = Inl OverflowError"
proof -
  have "1024 \<le> int n - int (count_list g (CHR ''1''))" using assms(2) by linarith
  then show ?thesis unfolding hadamard_weight_def Let_def by simp
qed

lemma hadamard_loop_Inr:
  "\<forall>g\<in>set gs. hadamard_weight n (genotypes ! g) = Inr (f g)
    \<Longrightarrow> hadamard_loop n genotypes gs w = Inr (fold (\<lambda>g w. w[g := (w ! g)[g := f g]]) gs w)"
  by (induction gs arbitrary: w) simp_all

lemma hadamard_loop_overflow:
  assumes "\<forall>g\<in>set gs. hadamard_weight n (genotypes ! g) = Inl OverflowError
                      \<or> \<not> isl (hadamard_weight n (genotypes ! g))"
    and "\<exists>g\<in>set gs. hadamard_weight n (genotypes ! g) = Inl OverflowError"
  shows "hadamard_loop n genotypes gs w = Inl OverflowError"
  using assms
proof (induction gs arbitrary: w)
  case Nil
  then show ?case by simp
next
  case (Cons g gs)
  show ?case
  proof (cases "hadamard_weight n (genotypes ! g)")
    case (Inl e)
    then show ?thesis using Cons.prems(1) by auto
  next
    case (Inr v)
    then have "\<exists>g\<in>set gs. hadamard_weight n (genotypes ! g) = Inl OverflowError"
      using Cons.prems(2) by auto
    then show ?thesis using Cons.IH Cons.prems(1) Inr by simp
  qed
qed

text \<open>
  Claim C10, as amended. For every non-empty list of genotype strings of one length
  \<open>n\<close>: when every genotype has \<open>n - k \<le> 1023\<close>, \<open>k\<close> counting its characters \<open>1\<close>,
  \<open>hadamard_weight_vector\<close> returns a square matrix whose side is the number of
  genotypes, every off-diagonal entry is 0 and the diagonal entry of genotype \<open>g\<close> is
  \<open>(-1)^k / 2^(n - k)\<close>; when some genotype has \<open>n - k \<ge> 1024\<close> it raises OverflowError.
\<close>

theorem hadamard_weight_vector_diagonal:
  assumes "genotypes \<noteq> []" and "\<forall>g \<in> set genotypes. length g = length (hd genotypes)"
  shows "((\<forall>g \<in> set genotypes. length g - count_list g (CHR ''1'') \<le> 1023) \<longrightarrow>
          (\<exists>W. hadamard_weight_vector genotypes = Inr W
             \<and> length W = length genotypes
             \<and> (\<forall>i<length genotypes. length (W ! i) = length genotypes
                  \<and> (\<forall>j<length genotypes. W ! i ! j =
                        (if i = j
                         then (- 1) ^ count_list (genotypes ! i) (CHR ''1'')
                                / 2 ^ (length (genotypes ! i)
                                        - count_list (genotypes ! i) (CHR ''1''))
                         else 0)))))
       \<and> ((\<exists>g \<in> set genotypes. 1024 \<le> length g - count_list g (CHR ''1'')) \<longrightarrow>
            hadamard_weight_vector genotypes = Inl OverflowError)"
proof (intro conjI impI)
  obtain g0 gs where g: "genotypes = g0 # gs" using assms(1) by (cases genotypes) auto
  define l where "l = length genotypes"
  define k where "k i = count_list (genotypes ! i) (CHR ''1'')" for i
  have len: "length (genotypes ! i) = length g0" if "i < l" for i
    using assms(2) that unfolding l_def g by (metis g list.sel(1) nth_mem)
  have hwv: "hadamard_weight_vector genotypes
      = hadamard_loop (length g0) genotypes [0..<l] (replicate l (replicate l (0::real)))"
    unfolding hadamard_weight_vector_def l_def g by (simp add: Let_def)
  {
    assume small: "\<forall>g \<in> set genotypes. length g - count_list g (CHR ''1'') \<le> 1023"
    define f where "f i = (- 1) ^ k i / (2::real) ^ (length g0 - k i)" for i
    define W where "W = fold (\<lambda>g w. w[g := (w ! g)[g := f g]])
                     [0..<l] (replicate l (replicate l (0::real)))"
    have "hadamard_weight (length g0) (genotypes ! i) = Inr (f i)" if "i < l" for i
    proof -
      have "genotypes ! i \<in> set genotypes" using that l_def by simp
      then have "length (genotypes ! i) - k i \<le> 1023" using small k_def by simp
      then show ?thesis
        using hadamard_weight_equal_length [of "genotypes ! i" "length g0"] len [OF that]
        by (simp add: f_def k_def)
    qed
    then have hw: "hadamard_weight_vector genotypes = Inr W"
      unfolding hwv W_def by (intro hadamard_loop_Inr) simp
    have fd: "length W = l \<and> (\<forall>i<l. W ! i = (replicate l (0::real))[i := f i])"
      using fold_diagonal [of l "replicate l (replicate l (0::real))" f]
      unfolding W_def by simp
    have "W ! i ! j = (if i = j then (- 1) ^ count_list (genotypes ! i) (CHR ''1'')
                                / 2 ^ (length (genotypes ! i)
                                        - count_list (genotypes ! i) (CHR ''1''))
                         else 0)" if "i < l" "j < l" for i j
      using fd that len [OF that(1)] by (auto simp: nth_list_update f_def k_def)
    moreover have "length (W ! i) = l" if "i < l" for i using fd that by simp
    ultimately show "\<exists>W. hadamard_weight_vector genotypes = Inr W
             \<and> length W = length genotypes
             \<and> (\<forall>i<length genotypes. length (W ! i) = length genotypes
                  \<and> (\<forall>j<length genotypes. W ! i ! j =
                        (if i = j
                         then (- 1) ^ count_list (genotypes ! i) (CHR ''1'')
                                / 2 ^ (length (genotypes ! i)
                                        - count_list (genotypes ! i) (CHR ''1''))
                         else 0)))"
      using hw fd unfolding l_def by blast
  }
  {
    assume big: "\<exists>g \<in> set genotypes. 1024 \<le> length g - count_list g (CHR ''1'')"
    have each: "hadamard_weight (length g0) (genotypes ! i) = Inl OverflowError
                \<or> \<not> isl (hadamard_weight (length g0) (genotypes ! i))" if "i < l" for i
    proof (cases "length (genotypes ! i) - k i \<le> 1023")
      case True
      then show ?thesis
        using hadamard_weight_equal_length [of "genotypes ! i" "length g0"] len [OF that]
        by (simp add: k_def)
    next
      case False
      then show ?thesis
        using hadamard_weight_overflow [of "genotypes ! i" "length g0"] len [OF that]
        by (simp add: k_def)
    qed
    from big obtain i where i: "i < l" "1024 \<le> length (genotypes ! i) - k i"
      unfolding l_def k_def by (auto simp: in_set_conv_nth)
    then have "hadamard_weight (length g0) (genotypes ! i) = Inl OverflowError"
      using hadamard_weight_overflow [of "genotypes ! i" "length g0"] len [OF i(1)]
      by (simp add: k_def)
    then have "\<exists>g\<in>set [0..<l]. hadamard_weight (length g0) (genotypes ! g) = Inl OverflowError"
      using i(1) by auto
    then show "hadamard_weight_vector genotypes = Inl OverflowError"
      unfolding hwv using each by (intro hadamard_loop_overflow) simp_all
  }
qed

theorem hadamard_weight_vector_diagonal_witness:
  "(\<exists>W. hadamard_weight_vector [''00'', ''01'', ''11''] = Inr W
     \<and> length W = 3 \<and> length (W ! 1) = 3
     \<and> W ! 0 ! 0 = 1 / 4 \<and> W ! 1 ! 1 = - 1 / 2 \<and> W ! 2 ! 2 = 1 \<and> W ! 0 ! 1 = 0)
   \<and> hadamard_weight_vector [replicate 1025 (CHR ''0'')] = Inl OverflowError"
proof -
  have "\<forall>g\<in>set [''00'', ''01'', ''11'']. length g - count_list g (CHR ''1'') \<le> 1023"
    by simp
  then obtain W where W: "hadamard_weight_vector [''00'', ''01'', ''11''] = Inr W"
      "length W = 3"
      "\<forall>i<3. length (W ! i) = 3
          \<and> (\<forall>j<3. W ! i ! j =
                (if i = j
                 then (- 1) ^ count_list ([''00'', ''01'', ''11''] ! i) (CHR ''1'')
                        / 2 ^ (length ([''00'', ''01'', ''11''] ! i)
                                - count_list ([''00'', ''01'', ''11''] ! i) (CHR ''1''))
                 else 0))"
    using hadamard_weight_vector_diagonal [of "[''00'', ''01'', ''11'']", THEN conjunct1]
    by auto
  have "length (W ! 1) = 3" "W ! 0 ! 0 = 1 / 4" "W ! 1 ! 1 = - 1 / 2" "W ! 2 ! 2 = 1"
       "W ! 0 ! 1 = 0"
    using W(3) by (simp_all add: numeral_3_eq_3)
  with W(1,2) have first: "\<exists>W. hadamard_weight_vector [''00'', ''01'', ''11''] = Inr W
     \<and> length W = 3 \<and> length (W ! 1) = 3
     \<and> W ! 0 ! 0 = 1 / 4 \<and> W ! 1 ! 1 = - 1 / 2 \<and> W ! 2 ! 2 = 1 \<and> W ! 0 ! 1 = 0"
    by blast
  have "hadamard_weight_vector [replicate 1025 (CHR ''0'')] = Inl OverflowError"
    using hadamard_weight_vector_diagonal [of "[replicate 1025 (CHR ''0'')]", THEN conjunct2]
    by (simp add: count_list_replicate_other)
  with first show ?thesis by blast
qed

text \<open>
  Claim C10 as stated (a matrix is returned for every non-empty list of binary strings
  of one length) fails on the single genotype of 1024 characters \<open>0\<close>: there \<open>n - k\<close> is
  1024 and line 34 raises OverflowError.
\<close>

theorem hadamard_weight_vector_overflow_counterexample:
  "hadamard_weight_vector [replicate 1024 (CHR ''0'')] = Inl OverflowError"
proof -
  have "hadamard_weight 1024 (replicate 1024 (CHR ''0'')) = Inl OverflowError"
    by (rule hadamard_weight_overflow) (simp_all add: count_list_replicate_other)
  then show ?thesis by (simp add: hadamard_weight_vector_def)
qed

subsection \<open>Unique epistasis functions: truncation of a label list\<close>

lemma cut_interaction_labels_filter:
  "cut_interaction_labels labels k = filter (\<lambda>l. int (length l) \<le> k) labels"
  by (induction labels) simp_all

text \<open>
  Claim C9. For every label list and every order \<open>k\<close>, \<open>cut_interaction_labels\<close> returns
  exactly the labels of the input whose size is at most \<open>k\<close>, in their relative order (it
  is the filter of the input by that test, a subsequence of the input); when every label
  already has size at most \<open>k\<close>, the input list is returned unchanged.
\<close>

theorem cut_interaction_labels_spec:
  "cut_interaction_labels labels k = filter (\<lambda>l. int (length l) \<le> k) labels
   \<and> subseq (cut_interaction_labels labels k) labels
   \<and> set (cut_interaction_labels labels k) = {l \<in> set labels. int (length l) \<le> k}
   \<and> ((\<forall>l \<in> set labels. int (length l) \<le> k) \<longrightarrow> cut_interaction_labels labels k = labels)"
  by (simp add: cut_interaction_labels_filter)

theorem cut_interaction_labels_spec_witness:
  "cut_interaction_labels [[], [1::nat], [2], [1, 2]] 2 = [[], [1], [2], [1, 2]]
   \<and> subseq (cut_interaction_labels [[], [1::nat], [2], [1, 2]] 2) [[], [1], [2], [1, 2]]"
  using cut_interaction_labels_spec [of "[[], [1::nat], [2], [1, 2]]" 2]
  by simp

subsection \<open>Dot products\<close>

lemma dotp_sum:
  "length u = length v \<Longrightarrow> dotp u v = (\<Sum>i<length u. u ! i * v ! i)"
proof (induction u v rule: list_induct2)
  case Nil
  then show ?case by (simp add: dotp_def)
next
  case (Cons x xs y ys)
  then show ?case by (simp add: dotp_def sum.lessThan_Suc_shift del: sum.lessThan_Suc)
qed

lemma np_dot_Inr:
  "\<forall>i<length M. length (M ! i) = length v \<Longrightarrow> np_dot M v = Inr (mat_vec M v)"
  by (simp add: np_dot_def list_all_length)

lemma length_mat_vec [simp]: "length (mat_vec M v) = length M"
  by (simp add: mat_vec_def)

lemma nth_mat_vec:
  "i < length M \<Longrightarrow> length (M ! i) = length v
    \<Longrightarrow> mat_vec M v ! i = (\<Sum>k<length v. M ! i ! k * v ! k)"
  by (simp add: mat_vec_def dotp_sum)

lemma mat_vec_scale:
  "mat_vec A (map ((*) c) v) = map ((*) c) (mat_vec A v)"
proof -
  have "dotp r (map ((*) c) v) = c * dotp r v" for r
    unfolding dotp_def
  proof (induction r arbitrary: v)
    case Nil
    then show ?case by simp
  next
    case (Cons x r)
    then show ?case by (cases v) (simp_all add: algebra_simps)
  qed
  then show ?thesis by (simp add: mat_vec_def)
qed

lemma sum_unit_left:
  "i < (n::nat) \<Longrightarrow> (\<Sum>k<n. (if i = k then 1 else 0) * f k) = (f i :: real)"
proof -
  assume i: "i < n"
  have "(\<Sum>k<n. (if i = k then 1 else 0) * f k) = (\<Sum>k\<in>{..<n}. if k = i then f k else 0)"
    by (rule sum.cong) auto
  also have "\<dots> = f i" using i by (simp add: sum.delta)
  finally show ?thesis .
qed

subsection \<open>The elimination, one pivot step\<close>

lemma length_scale_row [simp]: "length (scale_row c r) = length r"
  by (simp add: scale_row_def)

lemma nth_scale_row [simp]: "j < length r \<Longrightarrow> scale_row c r ! j = c * r ! j"
  by (simp add: scale_row_def)

lemma length_sub_scaled_row [simp]:
  "length (sub_scaled_row c p r) = min (length r) (length p)"
  by (simp add: sub_scaled_row_def)

lemma nth_sub_scaled_row [simp]:
  "j < length r \<Longrightarrow> j < length p \<Longrightarrow> sub_scaled_row c p r ! j = r ! j - c * p ! j"
  by (simp add: sub_scaled_row_def)

lemma scale_row_inverse: "c \<noteq> 0 \<Longrightarrow> scale_row c (scale_row (1 / c) r) = r"
  by (rule nth_equalityI) simp_all

lemma sub_scaled_row_inverse:
  "length p = length r \<Longrightarrow> sub_scaled_row (- c) p (sub_scaled_row c p r) = r"
  by (rule nth_equalityI) simp_all

lemma length_swap_rows [simp]: "length (swap_rows i j M) = length M"
  by (simp add: swap_rows_def)

lemma nth_unit_vec [simp]: "j < n \<Longrightarrow> unit_vec n i ! j = (if j = i then 1 else 0)"
  by (simp add: unit_vec_def)

lemma length_unit_vec [simp]: "length (unit_vec n i) = n"
  by (simp add: unit_vec_def)

lemma find_pivot_Some:
  assumes "find_pivot k M = Some p"
  shows "k \<le> p \<and> p < length M \<and> M ! p ! k \<noteq> 0"
proof -
  from assms obtain i where i: "i < length [k..<length M]" "M ! ([k..<length M] ! i) ! k \<noteq> 0"
      "p = [k..<length M] ! i"
    unfolding find_pivot_def find_Some_iff by blast
  then show ?thesis by simp
qed

lemma pivot_step_None:
  assumes "pivot_step k M = None" and "k \<le> p" and "p < length M"
  shows "M ! p ! k = 0"
proof -
  from assms(1) have "find_pivot k M = None"
    unfolding pivot_step_def by (auto simp: Let_def split: option.splits)
  then have "\<forall>p\<in>set [k..<length M]. M ! p ! k = 0"
    unfolding find_pivot_def find_None_iff by simp
  then show ?thesis using assms(2,3) by simp
qed

text \<open>The rows after one pivot step, in terms of the rows before it.\<close>

lemma pivot_step_rows:
  assumes "pivot_step k M = Some M'" and "k < length M"
  shows "\<exists>p. k \<le> p \<and> p < length M \<and> M ! p ! k \<noteq> 0 \<and> length M' = length M
    \<and> M' ! k = scale_row (1 / (M ! p ! k)) (M ! p)
    \<and> (\<forall>i<length M. i \<noteq> k \<longrightarrow>
       M' ! i = sub_scaled_row ((if i = p then M ! k else M ! i) ! k) (M' ! k)
                  (if i = p then M ! k else M ! i))"
proof -
  from assms(1) obtain p where fp: "find_pivot k M = Some p"
    and M': "M' = eliminate_column k
                   ((swap_rows k p M)[k := scale_row (1 / (swap_rows k p M ! k ! k)) (swap_rows k p M ! k)])"
    unfolding pivot_step_def by (auto simp: Let_def split: option.splits)
  from find_pivot_Some [OF fp] have p: "k \<le> p" "p < length M" "M ! p ! k \<noteq> 0" by simp_all
  have sk: "swap_rows k p M ! k = M ! p"
    using assms(2) p by (simp add: swap_rows_def nth_list_update)
  have si: "swap_rows k p M ! i = (if i = p then M ! k else M ! i)" if "i < length M" "i \<noteq> k" for i
    using that assms(2) p by (simp add: swap_rows_def nth_list_update)
  have len: "length M' = length M"
    unfolding M' by (simp add: eliminate_column_def)
  have rk: "M' ! k = scale_row (1 / (M ! p ! k)) (M ! p)"
    unfolding M' using assms(2) by (simp add: eliminate_column_def sk)
  have ri: "M' ! i = sub_scaled_row ((if i = p then M ! k else M ! i) ! k) (M' ! k)
                  (if i = p then M ! k else M ! i)" if "i < length M" "i \<noteq> k" for i
    unfolding rk unfolding M' using that assms(2) si [OF that]
    by (simp add: eliminate_column_def sk)
  show ?thesis using p len rk ri by blast
qed

text \<open>
  A property of rows that scaling and subtracting a multiple preserve holds of every
  row after a pivot step when it held before, and the other way round.
\<close>

lemma pivot_step_width:
  assumes "pivot_step k M = Some M'" and "k < length M"
    and "\<forall>i<length M. length (M ! i) = w"
  shows "length M' = length M \<and> (\<forall>i<length M. length (M' ! i) = w)"
proof -
  from pivot_step_rows [OF assms(1,2)]
  obtain p where p: "k \<le> p" "p < length M" "M ! p ! k \<noteq> 0"
    "length M' = length M"
    "M' ! k = scale_row (1 / (M ! p ! k)) (M ! p)"
    "\<And>i. i < length M \<Longrightarrow> i \<noteq> k \<Longrightarrow>
       M' ! i = sub_scaled_row ((if i = p then M ! k else M ! i) ! k) (M' ! k)
                  (if i = p then M ! k else M ! i)"
    by blast
  have k: "length (M' ! k) = w" using p(2,5) assms(3) by simp
  have "length (M' ! i) = w" if "i < length M" for i
  proof (cases "i = k")
    case True
    then show ?thesis using k by simp
  next
    case False
    then show ?thesis using p(6) [OF that False] k assms(2,3) that by simp
  qed
  then show ?thesis using p(4) by simp
qed

lemma pivot_step_forward:
  assumes "pivot_step k M = Some M'" and "k < length M"
    and "\<forall>i<length M. length (M ! i) = w"
    and scale: "\<And>c r. length r = w \<Longrightarrow> P r \<Longrightarrow> P (scale_row c r)"
    and sub: "\<And>c r s. length r = w \<Longrightarrow> length s = w \<Longrightarrow> P r \<Longrightarrow> P s
                \<Longrightarrow> P (sub_scaled_row c s r)"
    and "\<forall>i<length M. P (M ! i)"
  shows "\<forall>i<length M. P (M' ! i)"
proof -
  from pivot_step_rows [OF assms(1,2)]
  obtain p where p: "k \<le> p" "p < length M" "M ! p ! k \<noteq> 0"
    "length M' = length M"
    "M' ! k = scale_row (1 / (M ! p ! k)) (M ! p)"
    "\<And>i. i < length M \<Longrightarrow> i \<noteq> k \<Longrightarrow>
       M' ! i = sub_scaled_row ((if i = p then M ! k else M ! i) ! k) (M' ! k)
                  (if i = p then M ! k else M ! i)"
    by blast
  have k: "P (M' ! k)" "length (M' ! k) = w"
    using p(2,5) assms(3,6) scale by simp_all
  have "P (M' ! i)" if "i < length M" for i
  proof (cases "i = k")
    case True
    then show ?thesis using k by simp
  next
    case False
    have "length (if i = p then M ! k else M ! i) = w" "P (if i = p then M ! k else M ! i)"
      using assms(2,3,6) that by simp_all
    then show ?thesis using p(6) [OF that False] k sub by simp
  qed
  then show ?thesis by simp
qed

lemma pivot_step_backward:
  assumes "pivot_step k M = Some M'" and "k < length M"
    and "\<forall>i<length M. length (M ! i) = w"
    and scale: "\<And>c r. length r = w \<Longrightarrow> P r \<Longrightarrow> P (scale_row c r)"
    and sub: "\<And>c r s. length r = w \<Longrightarrow> length s = w \<Longrightarrow> P r \<Longrightarrow> P s
                \<Longrightarrow> P (sub_scaled_row c s r)"
    and "\<forall>i<length M. P (M' ! i)"
  shows "\<forall>i<length M. P (M ! i)"
proof -
  from pivot_step_rows [OF assms(1,2)]
  obtain p where p: "k \<le> p" "p < length M" "M ! p ! k \<noteq> 0"
    "length M' = length M"
    "M' ! k = scale_row (1 / (M ! p ! k)) (M ! p)"
    "\<And>i. i < length M \<Longrightarrow> i \<noteq> k \<Longrightarrow>
       M' ! i = sub_scaled_row ((if i = p then M ! k else M ! i) ! k) (M' ! k)
                  (if i = p then M ! k else M ! i)"
    by blast
  have w': "\<forall>i<length M. length (M' ! i) = w"
    using pivot_step_width [OF assms(1,2,3)] by simp
  have k: "P (M' ! k)" "length (M' ! k) = w" using assms(2,6) w' by simp_all
  have "M ! p = scale_row (M ! p ! k) (M' ! k)"
    unfolding p(5) using p(3) by (simp add: scale_row_inverse)
  then have pp: "P (M ! p)" using scale [OF k(2) k(1), of "M ! p ! k"] by simp
  have src: "P (if i = p then M ! k else M ! i)" if "i < length M" "i \<noteq> k" for i
  proof -
    let ?r = "if i = p then M ! k else M ! i"
    have lr: "length ?r = w" using assms(2,3) that by simp
    have "?r = sub_scaled_row (- (?r ! k)) (M' ! k) (M' ! i)"
      unfolding p(6) [OF that] using lr k(2) by (simp add: sub_scaled_row_inverse)
    moreover have "P (M' ! i)" "length (M' ! i) = w" using assms(6) w' that by simp_all
    ultimately show ?thesis using sub [of "M' ! i" "M' ! k" "- (?r ! k)"] k by simp
  qed
  have "P (M ! i)" if "i < length M" for i
  proof (cases "i = p")
    case True
    then show ?thesis using pp by simp
  next
    case ip: False
    show ?thesis
    proof (cases "i = k")
      case True
      then show ?thesis using src [of p] p(2) ip by auto
    next
      case False
      then show ?thesis using src [of i] that ip by simp
    qed
  qed
  then show ?thesis by simp
qed

text \<open>After the step for column \<open>k\<close>, column \<open>k\<close> is a unit column, and so is every
  earlier column that was one.\<close>

lemma pivot_step_columns:
  assumes "pivot_step k M = Some M'" and "k < length M"
    and "\<forall>i<length M. length (M ! i) = w" and "k < w"
    and "\<forall>j<k. \<forall>i<length M. M ! i ! j = (if i = j then 1 else 0)"
  shows "\<forall>j<Suc k. \<forall>i<length M. M' ! i ! j = (if i = j then 1 else 0)"
proof -
  from pivot_step_rows [OF assms(1,2)]
  obtain p where p: "k \<le> p" "p < length M" "M ! p ! k \<noteq> 0"
    "length M' = length M"
    "M' ! k = scale_row (1 / (M ! p ! k)) (M ! p)"
    "\<And>i. i < length M \<Longrightarrow> i \<noteq> k \<Longrightarrow>
       M' ! i = sub_scaled_row ((if i = p then M ! k else M ! i) ! k) (M' ! k)
                  (if i = p then M ! k else M ! i)"
    by blast
  have lk: "length (M' ! k) = w" using p(2,5) assms(3) by simp
  have kk: "M' ! k ! k = 1" using p(2,3,5) assms(3,4) by simp
  have kj: "M' ! k ! j = 0" if "j < k" for j
  proof -
    have "M ! p ! j = 0" using assms(5) that p(1,2) by simp
    then show ?thesis using p(2,5) assms(3,4) that by simp
  qed
  have "M' ! i ! j = (if i = j then 1 else 0)" if "j < Suc k" "i < length M" for i j
  proof (cases "i = k")
    case True
    then show ?thesis using kk kj [of j] that by (cases "j = k") auto
  next
    case False
    let ?r = "if i = p then M ! k else M ! i"
    have lr: "length ?r = w" using assms(2,3) that by simp
    have eq: "M' ! i ! j = ?r ! j - ?r ! k * M' ! k ! j"
      using p(6) [OF that(2) False] lr lk that(1) assms(4) by simp
    show ?thesis
    proof (cases "j = k")
      case True
      then show ?thesis using eq kk False by simp
    next
      case jk: False
      then have j: "j < k" using that(1) by simp
      have "?r ! j = (if i = j then 1 else 0)"
        using assms(5) j that(2) assms(2) p(1) by auto
      then show ?thesis using eq kj [OF j] by simp
    qed
  qed
  then show ?thesis by simp
qed

subsection \<open>The elimination, all columns\<close>

text \<open>The same along the whole elimination.\<close>

lemma gauss_jordan_width:
  assumes "gauss_jordan ks M = Some M'" and "\<forall>k\<in>set ks. k < length M"
    and "\<forall>i<length M. length (M ! i) = w"
  shows "length M' = length M \<and> (\<forall>i<length M. length (M' ! i) = w)"
  using assms
proof (induction ks arbitrary: M)
  case Nil
  then show ?case by simp
next
  case (Cons k ks)
  from Cons.prems(1) obtain M1 where M1: "pivot_step k M = Some M1" "gauss_jordan ks M1 = Some M'"
    by (auto split: option.splits)
  have k: "k < length M" using Cons.prems(2) by simp
  have w1: "length M1 = length M \<and> (\<forall>i<length M. length (M1 ! i) = w)"
    using pivot_step_width [OF M1(1) k Cons.prems(3)] .
  show ?case using Cons.IH [OF M1(2)] w1 Cons.prems(2) by simp
qed

lemma gauss_jordan_forward:
  assumes "gauss_jordan ks M = Some M'" and "\<forall>k\<in>set ks. k < length M"
    and "\<forall>i<length M. length (M ! i) = w"
    and scale: "\<And>c r. length r = w \<Longrightarrow> P r \<Longrightarrow> P (scale_row c r)"
    and sub: "\<And>c r s. length r = w \<Longrightarrow> length s = w \<Longrightarrow> P r \<Longrightarrow> P s
                \<Longrightarrow> P (sub_scaled_row c s r)"
    and "\<forall>i<length M. P (M ! i)"
  shows "\<forall>i<length M. P (M' ! i)"
  using assms(1,2,3,6)
proof (induction ks arbitrary: M)
  case Nil
  then show ?case by simp
next
  case (Cons k ks)
  from Cons.prems(1) obtain M1 where M1: "pivot_step k M = Some M1" "gauss_jordan ks M1 = Some M'"
    by (auto split: option.splits)
  have k: "k < length M" using Cons.prems(2) by simp
  have w1: "length M1 = length M \<and> (\<forall>i<length M. length (M1 ! i) = w)"
    using pivot_step_width [OF M1(1) k Cons.prems(3)] .
  have P1: "\<forall>i<length M. P (M1 ! i)"
    using pivot_step_forward [OF M1(1) k Cons.prems(3), of P] scale sub Cons.prems(4) by blast
  show ?case using Cons.IH [OF M1(2)] w1 P1 Cons.prems(2) by simp
qed

lemma gauss_jordan_backward:
  assumes "gauss_jordan ks M = Some M'" and "\<forall>k\<in>set ks. k < length M"
    and "\<forall>i<length M. length (M ! i) = w"
    and scale: "\<And>c r. length r = w \<Longrightarrow> P r \<Longrightarrow> P (scale_row c r)"
    and sub: "\<And>c r s. length r = w \<Longrightarrow> length s = w \<Longrightarrow> P r \<Longrightarrow> P s
                \<Longrightarrow> P (sub_scaled_row c s r)"
    and "\<forall>i<length M. P (M' ! i)"
  shows "\<forall>i<length M. P (M ! i)"
  using assms(1,2,3,6)
proof (induction ks arbitrary: M)
  case Nil
  then show ?case by simp
next
  case (Cons k ks)
  from Cons.prems(1) obtain M1 where M1: "pivot_step k M = Some M1" "gauss_jordan ks M1 = Some M'"
    by (auto split: option.splits)
  have k: "k < length M" using Cons.prems(2) by simp
  have w1: "length M1 = length M \<and> (\<forall>i<length M. length (M1 ! i) = w)"
    using pivot_step_width [OF M1(1) k Cons.prems(3)] .
  have "\<forall>i<length M1. P (M1 ! i)"
    using Cons.IH [OF M1(2)] w1 Cons.prems(2,4) by simp
  then have "\<forall>i<length M. P (M1 ! i)" using w1 by simp
  then show ?case
    using pivot_step_backward [OF M1(1) k Cons.prems(3), of P] scale sub by blast
qed

lemma gauss_jordan_columns:
  assumes "gauss_jordan [k..<n] M = Some M'" and "n \<le> length M" and "n \<le> w"
    and "\<forall>i<length M. length (M ! i) = w"
    and "\<forall>j<k. \<forall>i<length M. M ! i ! j = (if i = j then 1 else 0)"
  shows "\<forall>j<max k n. \<forall>i<length M. M' ! i ! j = (if i = j then 1 else 0)"
  using assms
proof (induction "n - k" arbitrary: k M)
  case 0
  then show ?case by (simp add: max_def)
next
  case (Suc d)
  then have kn: "k < n" by simp
  then have upt: "[k..<n] = k # [Suc k..<n]" by (simp add: upt_conv_Cons)
  from Suc.prems(1) obtain M1 where M1: "pivot_step k M = Some M1"
      "gauss_jordan [Suc k..<n] M1 = Some M'"
    unfolding upt by (auto split: option.splits)
  have k: "k < length M" "k < w" using kn Suc.prems(2,3) by simp_all
  have w1: "length M1 = length M \<and> (\<forall>i<length M. length (M1 ! i) = w)"
    using pivot_step_width [OF M1(1) k(1) Suc.prems(4)] .
  have c1: "\<forall>j<Suc k. \<forall>i<length M. M1 ! i ! j = (if i = j then 1 else 0)"
    using pivot_step_columns [OF M1(1) k(1) Suc.prems(4) k(2) Suc.prems(5)] .
  have "\<forall>j<max (Suc k) n. \<forall>i<length M1. M' ! i ! j = (if i = j then 1 else 0)"
    using Suc.hyps(1) [of "Suc k" M1] Suc.hyps(2) M1(2) Suc.prems(2,3) w1 c1 by simp
  then show ?case using w1 kn by (simp add: max_def)
qed

text \<open>An elimination that fails has reached a column without a pivot.\<close>

lemma gauss_jordan_None:
  assumes "gauss_jordan [k..<n] M = None"
  shows "\<exists>k' Mk. k \<le> k' \<and> k' < n \<and> gauss_jordan [k..<k'] M = Some Mk \<and> pivot_step k' Mk = None"
  using assms
proof (induction "n - k" arbitrary: k M)
  case 0
  then show ?case by simp
next
  case (Suc d)
  then have kn: "k < n" by simp
  then have upt: "[k..<n] = k # [Suc k..<n]" by (simp add: upt_conv_Cons)
  show ?case
  proof (cases "pivot_step k M")
    case None
    then show ?thesis using kn by (intro exI [of _ k] exI [of _ M]) simp
  next
    case (Some M1)
    then have "gauss_jordan [Suc k..<n] M1 = None" using Suc.prems unfolding upt by simp
    moreover have "d = n - Suc k" using Suc.hyps(2) by simp
    ultimately have "\<exists>k' Mk. Suc k \<le> k' \<and> k' < n \<and> gauss_jordan [Suc k..<k'] M1 = Some Mk
        \<and> pivot_step k' Mk = None"
      using Suc.hyps(1) [of "Suc k" M1] by blast
    then obtain k' Mk where k': "Suc k \<le> k'" "k' < n" "gauss_jordan [Suc k..<k'] M1 = Some Mk"
      "pivot_step k' Mk = None"
      by blast
    have "[k..<k'] = k # [Suc k..<k']" using k'(1) by (simp add: upt_conv_Cons)
    then have "gauss_jordan [k..<k'] M = Some Mk" using Some k'(3) by simp
    then show ?thesis using k' by (intro exI [of _ k'] exI [of _ Mk]) simp
  qed
qed

subsection \<open>The result of the inversion\<close>

text \<open>
  What \<open>linalg_inv\<close> returns is the inverse on both sides: the rows of the extended
  matrix keep the relation (left half) = (right half) times \<open>A\<close> from the start to
  the end, and the relation (right half) = (left half) times \<open>B\<close> from the end back
  to the start.
\<close>

lemma linalg_inv_sound:
  assumes "linalg_inv A = Inr B"
  defines "n \<equiv> length A"
  shows "0 < n" and "\<forall>i<n. length (A ! i) = n"
    and "length B = n" and "\<forall>i<n. length (B ! i) = n"
    and "\<forall>i<n. \<forall>j<n. (\<Sum>k<n. A ! i ! k * B ! k ! j) = (if i = j then 1 else 0)"
    and "\<forall>i<n. \<forall>j<n. (\<Sum>k<n. B ! i ! k * A ! k ! j) = (if i = j then 1 else 0)"
proof -
  from assms(1) have n0: "n \<noteq> 0" and sq: "list_all (\<lambda>r. length r = n) A"
    unfolding linalg_inv_def n_def by (auto simp: Let_def split: if_splits)
  from assms(1) obtain Mf where Mf: "gauss_jordan [0..<n] (augment A) = Some Mf"
      and B: "B = map (drop n) Mf"
    unfolding linalg_inv_def n_def by (auto simp: Let_def split: if_splits option.splits)
  show "0 < n" using n0 by simp
  show rowsA: "\<forall>i<n. length (A ! i) = n" using sq by (simp add: list_all_length n_def)
  let ?M0 = "augment A"
  have l0: "length ?M0 = n" by (simp add: augment_def n_def)
  have r0: "?M0 ! i = A ! i @ unit_vec n i" if "i < n" for i
    using that by (simp add: augment_def n_def)
  have w0: "\<forall>i<length ?M0. length (?M0 ! i) = 2 * n" using rowsA l0 r0 by simp
  have ks: "\<forall>k\<in>set [0..<n]. k < length ?M0" using l0 by simp
  from gauss_jordan_width [OF Mf ks w0]
  have lf: "length Mf = n" and wf: "\<forall>i<n. length (Mf ! i) = 2 * n" using l0 by simp_all
  show lB: "length B = n" using lf B by simp
  show rowsB: "\<forall>i<n. length (B ! i) = n" using lf wf B by simp
  have nthB: "B ! i ! j = Mf ! i ! (n + j)" if "i < n" "j < n" for i j
    using that lf wf B by simp
  have "\<forall>j<max 0 n. \<forall>i<length ?M0. Mf ! i ! j = (if i = j then 1 else 0)"
    by (rule gauss_jordan_columns [OF Mf _ _ w0]) (simp_all add: l0)
  then have unit: "Mf ! i ! j = (if i = j then 1 else 0)" if "i < n" "j < n" for i j
    using that l0 by simp
  have M0l: "?M0 ! i ! j = A ! i ! j" if "i < n" "j < n" for i j
    using that r0 rowsA by (simp add: nth_append)
  have M0r: "?M0 ! i ! (n + j) = (if j = i then 1 else 0)" if "i < n" "j < n" for i j
    using that r0 rowsA by (simp add: nth_append)

  define P where "P r \<longleftrightarrow> (\<forall>j<n. r ! j = (\<Sum>k<n. r ! (n + k) * A ! k ! j))" for r :: vector
  have P_scale: "P (scale_row c r)" if "length r = 2 * n" "P r" for c r
    using that unfolding P_def by (simp add: sum_distrib_left mult.assoc)
  have P_sub: "P (sub_scaled_row c s r)" if "length r = 2 * n" "length s = 2 * n" "P r" "P s"
    for c r s
    using that unfolding P_def
    by (simp add: sum_subtractf sum_distrib_left left_diff_distrib mult.assoc)
  have P0: "\<forall>i<length ?M0. P (?M0 ! i)"
    unfolding P_def using l0 M0l M0r by (simp add: sum_unit_left eq_commute [of _ "_::nat"])
  have "\<forall>i<length ?M0. P (Mf ! i)"
    by (rule gauss_jordan_forward [OF Mf ks w0, of P]) (use P_scale P_sub P0 in blast)+
  then show "\<forall>i<n. \<forall>j<n. (\<Sum>k<n. B ! i ! k * A ! k ! j) = (if i = j then 1 else 0)"
    unfolding P_def using l0 unit nthB by simp

  define Q where "Q r \<longleftrightarrow> (\<forall>j<n. r ! (n + j) = (\<Sum>k<n. r ! k * B ! k ! j))" for r :: vector
  have Q_scale: "Q (scale_row c r)" if "length r = 2 * n" "Q r" for c r
    using that unfolding Q_def by (simp add: sum_distrib_left mult.assoc)
  have Q_sub: "Q (sub_scaled_row c s r)" if "length r = 2 * n" "length s = 2 * n" "Q r" "Q s"
    for c r s
    using that unfolding Q_def
    by (simp add: sum_subtractf sum_distrib_left left_diff_distrib mult.assoc)
  have Qf: "\<forall>i<length ?M0. Q (Mf ! i)"
    unfolding Q_def using l0 unit nthB by (simp add: sum_unit_left)
  have "\<forall>i<length ?M0. Q (?M0 ! i)"
    by (rule gauss_jordan_backward [OF Mf ks w0, of Q]) (use Q_scale Q_sub Qf in blast)+
  then show "\<forall>i<n. \<forall>j<n. (\<Sum>k<n. A ! i ! k * B ! k ! j) = (if i = j then 1 else 0)"
    unfolding Q_def using l0 M0l M0r by (simp add: eq_commute [of _ "_::nat"])
qed

lemma linalg_inv_Inl: "linalg_inv A = Inl e \<Longrightarrow> e = LinAlgError"
  unfolding linalg_inv_def by (auto simp: Let_def split: if_splits option.splits)

text \<open>
  The other direction: when the elimination finds no pivot, the matrix maps a non-zero
  vector to zero, so it has no inverse.
\<close>

lemma linalg_inv_singular:
  assumes "linalg_inv A = Inl e" and "A \<noteq> []" and "\<forall>i<length A. length (A ! i) = length A"
  shows "\<exists>v k. k < length A \<and> v k = 1 \<and> (\<forall>i<length A. (\<Sum>j<length A. A ! i ! j * v j) = 0)"
proof -
  define n where "n = length A"
  have sq: "list_all (\<lambda>r. length r = n) A" using assms(3) by (simp add: list_all_length n_def)
  have n0: "n \<noteq> 0" using assms(2) by (simp add: n_def)
  let ?M0 = "augment A"
  from assms(1) sq n0 have none: "gauss_jordan [0..<n] ?M0 = None"
    unfolding linalg_inv_def n_def [symmetric] by (auto simp: Let_def split: option.splits)
  from gauss_jordan_None [OF none]
  obtain k Mk where k: "k < n" and Mk: "gauss_jordan [0..<k] ?M0 = Some Mk"
    and np: "pivot_step k Mk = None"
    by auto
  have l0: "length ?M0 = n" by (simp add: augment_def n_def)
  have r0: "?M0 ! i = A ! i @ unit_vec n i" if "i < n" for i
    using that by (simp add: augment_def n_def)
  have w0: "\<forall>i<length ?M0. length (?M0 ! i) = 2 * n" using assms(3) l0 r0 by (simp add: n_def)
  have ks: "\<forall>j\<in>set [0..<k]. j < length ?M0" using l0 k by simp
  from gauss_jordan_width [OF Mk ks w0]
  have lk: "length Mk = n" and wk: "\<forall>i<n. length (Mk ! i) = 2 * n" using l0 by simp_all
  have "\<forall>j<max 0 k. \<forall>i<length ?M0. Mk ! i ! j = (if i = j then 1 else 0)"
    by (rule gauss_jordan_columns [OF Mk _ _ w0]) (use k l0 in simp_all)
  then have unit: "Mk ! i ! j = (if i = j then 1 else 0)" if "i < n" "j < k" for i j
    using that l0 by simp
  have zero: "Mk ! i ! k = 0" if "k \<le> i" "i < n" for i
    using pivot_step_None [OF np that(1)] that(2) lk by simp
  define v where "v j = (if j = k then 1 else if j < k then - (Mk ! j ! k) else 0)" for j
  define Q where "Q r \<longleftrightarrow> (\<Sum>j<n. r ! j * v j) = 0" for r :: vector
  have Q_scale: "Q (scale_row c r)" if "length r = 2 * n" "Q r" for c r
  proof -
    have "(\<Sum>j<n. scale_row c r ! j * v j) = c * (\<Sum>j<n. r ! j * v j)"
      using that(1) by (simp add: sum_distrib_left mult.assoc)
    then show ?thesis using that(2) by (simp add: Q_def)
  qed
  have Q_sub: "Q (sub_scaled_row c s r)" if "length r = 2 * n" "length s = 2 * n" "Q r" "Q s"
    for c r s
  proof -
    have "(\<Sum>j<n. sub_scaled_row c s r ! j * v j)
            = (\<Sum>j<n. r ! j * v j) - c * (\<Sum>j<n. s ! j * v j)"
      using that(1,2) by (simp add: sum_subtractf sum_distrib_left left_diff_distrib mult.assoc)
    then show ?thesis using that(3,4) by (simp add: Q_def)
  qed
  have Qk: "Q (Mk ! i)" if "i < n" for i
  proof -
    have "(\<Sum>j<n. Mk ! i ! j * v j)
            = (\<Sum>j<n. (if j = k then Mk ! i ! k else 0)
                       + (if j = i then (if i < k then - (Mk ! i ! k) else 0) else 0))"
    proof (rule sum.cong [OF refl])
      fix j assume "j \<in> {..<n}"
      then have j: "j < n" by simp
      consider "j = k" | "j < k" | "k < j" by arith
      then show "Mk ! i ! j * v j = (if j = k then Mk ! i ! k else 0)
                       + (if j = i then (if i < k then - (Mk ! i ! k) else 0) else 0)"
      proof cases
        case 1
        then show ?thesis by (simp add: v_def)
      next
        case 2
        then show ?thesis using unit [OF that 2] by (auto simp: v_def)
      next
        case 3
        then show ?thesis by (auto simp: v_def)
      qed
    qed
    also have "\<dots> = Mk ! i ! k + (if i < k then - (Mk ! i ! k) else 0)"
      using k that by (simp add: sum.distrib sum.delta)
    also have "\<dots> = 0" using zero [of i] that by auto
    finally show ?thesis by (simp add: Q_def)
  qed
  then have "\<forall>i<length ?M0. Q (Mk ! i)" using l0 by simp
  from gauss_jordan_backward [OF Mk ks w0, of Q, OF _ _ this] Q_scale Q_sub
  have "\<forall>i<length ?M0. Q (?M0 ! i)" by blast
  then have "\<forall>i<n. (\<Sum>j<n. A ! i ! j * v j) = 0"
    using l0 r0 assms(3) unfolding Q_def n_def [symmetric] by (simp add: nth_append)
  moreover have "v k = 1" by (simp add: v_def)
  ultimately show ?thesis using k unfolding n_def by blast
qed

text \<open>A square matrix with a left inverse is inverted.\<close>

lemma linalg_inv_complete:
  assumes "A \<noteq> []" and "\<forall>i<length A. length (A ! i) = length A"
    and "\<forall>i<length A. \<forall>j<length A. (\<Sum>k<length A. Y i k * A ! k ! j) = (if i = j then 1 else (0::real))"
  shows "\<exists>B. linalg_inv A = Inr B"
proof (cases "linalg_inv A")
  case (Inr B)
  then show ?thesis by blast
next
  case (Inl e)
  let ?n = "length A"
  from linalg_inv_singular [OF Inl assms(1,2)]
  obtain v k where k: "k < ?n" "v k = 1" and z: "\<forall>i<?n. (\<Sum>j<?n. A ! i ! j * v j) = 0"
    by blast
  have "v k = (\<Sum>j<?n. (if k = j then 1 else 0) * v j)" using k(1) by (simp add: sum_unit_left)
  also have "\<dots> = (\<Sum>j<?n. (\<Sum>i<?n. Y k i * A ! i ! j) * v j)"
    using assms(3) k(1) by (intro sum.cong) simp_all
  also have "\<dots> = (\<Sum>j<?n. \<Sum>i<?n. Y k i * (A ! i ! j * v j))"
    by (simp add: sum_distrib_right mult.assoc)
  also have "\<dots> = (\<Sum>i<?n. \<Sum>j<?n. Y k i * (A ! i ! j * v j))" by (rule sum.swap)
  also have "\<dots> = (\<Sum>i<?n. Y k i * (\<Sum>j<?n. A ! i ! j * v j))" by (simp add: sum_distrib_left)
  also have "\<dots> = 0" using z by simp
  finally show ?thesis using k(2) by simp
qed

lemma mat_mul_identity:
  assumes "0 < n" and "length A = n" and "\<forall>i<n. length (A ! i) = n"
    and "length B = n" and "\<forall>i<n. length (B ! i) = n"
    and "\<forall>i<n. \<forall>j<n. (\<Sum>k<n. A ! i ! k * B ! k ! j) = (if i = j then 1 else 0)"
  shows "mat_mul A B = identity_matrix n"
proof -
  obtain b bs where b: "B = b # bs" using assms(1,4) by (cases B) auto
  have "length b = n" using assms(1,5) b by auto
  then have nc: "(case B of [] \<Rightarrow> 0 | b # _ \<Rightarrow> length b) = n" using b by simp
  have col: "dotp (A ! i) (column j B) = (\<Sum>k<n. A ! i ! k * B ! k ! j)" if "i < n" "j < n" for i j
  proof -
    have "length (A ! i) = length (column j B)" using assms(3,4) that by (simp add: column_def)
    then have "dotp (A ! i) (column j B) = (\<Sum>k<length (A ! i). A ! i ! k * column j B ! k)"
      by (rule dotp_sum)
    also have "\<dots> = (\<Sum>k<n. A ! i ! k * B ! k ! j)"
      using assms(3,4) that by (simp add: column_def)
    finally show ?thesis .
  qed
  show ?thesis
  proof (rule nth_equalityI)
    show "length (mat_mul A B) = length (identity_matrix n)"
      using assms(2) by (simp add: mat_mul_def identity_matrix_def)
  next
    fix i assume "i < length (mat_mul A B)"
    then have i: "i < n" using assms(2) by (simp add: mat_mul_def)
    show "mat_mul A B ! i = identity_matrix n ! i"
    proof (rule nth_equalityI)
      show "length (mat_mul A B ! i) = length (identity_matrix n ! i)"
        using i assms(2) nc by (simp add: mat_mul_def identity_matrix_def)
    next
      fix j assume "j < length (mat_mul A B ! i)"
      then have j: "j < n" using i assms(2) nc by (simp add: mat_mul_def)
      show "mat_mul A B ! i ! j = identity_matrix n ! i ! j"
        using i j assms(2,6) nc col by (simp add: mat_mul_def identity_matrix_def)
    qed
  qed
qed

lemma linalg_inv_inverse:
  assumes "linalg_inv A = Inr B"
  shows "mat_mul A B = identity_matrix (length A)" and "mat_mul B A = identity_matrix (length A)"
  using linalg_inv_sound [OF assms]
  by (simp_all add: mat_mul_identity)

text \<open>Multiplying by a matrix and then by its inverse gives the vector back.\<close>

lemma mat_vec_inverse:
  assumes "linalg_inv A = Inr B" and "length v = length A"
  shows "mat_vec A (mat_vec B v) = v"
proof (rule nth_equalityI)
  note s = linalg_inv_sound [OF assms(1)]
  show "length (mat_vec A (mat_vec B v)) = length v" using assms(2) by simp
  fix i assume "i < length (mat_vec A (mat_vec B v))"
  then have i: "i < length A" by simp
  let ?n = "length A"
  have "mat_vec A (mat_vec B v) ! i = (\<Sum>k<?n. A ! i ! k * mat_vec B v ! k)"
    using nth_mat_vec [of i A "mat_vec B v"] i s(2,3) by simp
  also have "\<dots> = (\<Sum>k<?n. A ! i ! k * (\<Sum>j<?n. B ! k ! j * v ! j))"
    using s(3,4) assms(2) by (intro sum.cong) (simp_all add: nth_mat_vec)
  also have "\<dots> = (\<Sum>k<?n. \<Sum>j<?n. (A ! i ! k * B ! k ! j) * v ! j)"
    by (simp add: sum_distrib_left mult.assoc)
  also have "\<dots> = (\<Sum>j<?n. \<Sum>k<?n. (A ! i ! k * B ! k ! j) * v ! j)"
    by (rule sum.swap)
  also have "\<dots> = (\<Sum>j<?n. (\<Sum>k<?n. A ! i ! k * B ! k ! j) * v ! j)"
    by (simp add: sum_distrib_right)
  also have "\<dots> = (\<Sum>j<?n. (if i = j then 1 else 0) * v ! j)"
    using s(5) i by (intro sum.cong) simp_all
  also have "\<dots> = v ! i" using i by (rule sum_unit_left)
  finally show "mat_vec A (mat_vec B v) ! i = v ! i" .
qed

subsection \<open>Labels and design matrices\<close>

lemma enumerate_labels_nonempty:
  assumes "enumerate_labels n k = Inr labels"
  shows "labels \<noteq> []"
proof -
  have "[0..<Suc k] = 0 # [1..<Suc k]" by (simp add: upt_conv_Cons)
  then have "concat (map (combinations [1..<Suc n]) [0..<Suc k])
               = [[]] @ concat (map (combinations [1..<Suc n]) [1..<Suc k])"
    by (simp del: upt_Suc)
  then show ?thesis using assms unfolding enumerate_labels_def by (auto split: if_splits)
qed

lemma generate_dv_matrix_shape:
  assumes "generate_dv_matrix genotypes labels enc = Inr X"
  shows "length X = length genotypes"
    and "\<forall>i<length genotypes. length (X ! i) = length labels"
    and "\<forall>i<length genotypes. \<forall>j<length labels. X ! i ! j = dv_entry enc (genotypes ! i) (labels ! j)"
  using assms unfolding generate_dv_matrix_def by (auto split: if_splits)

lemma prod_list_zero_one:
  "\<forall>x\<in>set xs. x = 0 \<or> x = (1::real) \<Longrightarrow> prod_list xs = 0 \<or> prod_list xs = 1"
  by (induction xs) auto

lemma abs_prod_list_one:
  "\<forall>x\<in>set xs. \<bar>x\<bar> = (1::real) \<Longrightarrow> \<bar>prod_list xs\<bar> = 1"
  by (induction xs) (auto simp: abs_mult)

lemma dv_entry_local:
  "dv_entry [(CHR ''1'', 1), (CHR ''0'', 0)] g label = 0
   \<or> dv_entry [(CHR ''1'', 1), (CHR ''0'', 0)] g label = 1"
  unfolding dv_entry_def by (rule prod_list_zero_one) (simp add: encode_def)

lemma dv_entry_global:
  assumes "valid_genotype [(CHR ''1'', 1), (CHR ''0'', - 1)] labels g" and "label \<in> set labels"
  shows "\<bar>dv_entry [(CHR ''1'', 1), (CHR ''0'', - 1)] g label\<bar> = 1"
proof -
  have "\<bar>encode [(CHR ''1'', 1), (CHR ''0'', - 1)] (g ! (s - 1))\<bar> = 1" if s: "s \<in> set label" for s
  proof -
    from assms have "1 \<le> s \<and> s \<le> length g"
      using s unfolding valid_genotype_def by (auto simp: list_all_iff)
    then have "s - 1 < length g" by arith
    then have "g ! (s - 1) \<in> set g" by (rule nth_mem)
    then have "map_of [(CHR ''1'', 1::real), (CHR ''0'', - 1)] (g ! (s - 1)) \<noteq> None"
      using assms(1) unfolding valid_genotype_def by (auto simp: list_all_iff)
    then show ?thesis by (auto simp: encode_def split: if_splits)
  qed
  then have "\<forall>x\<in>set (map (\<lambda>s. encode [(CHR ''1'', 1), (CHR ''0'', - 1)] (g ! (s - 1))) label).
               \<bar>x\<bar> = 1"
    by auto
  then show ?thesis unfolding dv_entry_def by (rule abs_prod_list_one)
qed

subsection \<open>Construction\<close>

text \<open>The two constructors of the source are the parameterised construction at their
  encodings.\<close>

lemma LocalEpistasisModel_init_eq:
  "LocalEpistasisModel_init wildtype genotypes phenotypes errors =
     EpistasisModel_init [(CHR ''1'', 1), (CHR ''0'', 0)] wildtype genotypes phenotypes errors"
  by (simp add: LocalEpistasisModel_init_def EpistasisModel_init_def BaseModel_init_def
      construct_interactions_def Let_def split: sum.splits)

lemma GlobalEpistasisModel_init_eq:
  "GlobalEpistasisModel_init wildtype genotypes phenotypes errors =
     EpistasisModel_init [(CHR ''1'', 1), (CHR ''0'', - 1)] wildtype genotypes phenotypes errors"
  by (simp add: GlobalEpistasisModel_init_def EpistasisModel_init_def BaseModel_init_def
      construct_interactions_def Let_def split: sum.splits)

lemma EpistasisModel_init_Inr:
  assumes "EpistasisModel_init enc wildtype genotypes phenotypes errors = Inr m"
  shows "Binary_genotypes m = genotypes" and "Binary_phenotypes m = phenotypes"
    and "Binary_errors m = errors" and "self_n m = length genotypes"
    and "self_length m = length wildtype" and "self_order m = length wildtype"
    and "Interactions_values m = None" and "Interactions_errors m = None"
    and "enumerate_labels (length wildtype) (length wildtype) = Inr (Interactions_labels m)"
    and "generate_dv_matrix genotypes (Interactions_labels m) enc = Inr (self_X m)"
    and "linalg_inv (self_X m) = Inr (self_X_inv m)"
    and "self_wildtype m = wildtype"
  using assms unfolding EpistasisModel_init_def
  by (auto split: sum.splits)

lemma EpistasisModel_init_square:
  assumes "EpistasisModel_init enc wildtype genotypes phenotypes errors = Inr m"
  shows "0 < length genotypes" and "length (self_X m) = length genotypes"
    and "length (self_X_inv m) = length genotypes"
    and "\<forall>i<length genotypes. length (self_X m ! i) = length genotypes"
    and "\<forall>i<length genotypes. length (self_X_inv m ! i) = length genotypes"
    and "length (Interactions_labels m) = length genotypes"
proof -
  note f = EpistasisModel_init_Inr [OF assms]
  note g = generate_dv_matrix_shape [OF f(10)]
  note s = linalg_inv_sound [OF f(11)]
  show "0 < length genotypes" using s(1) g(1) by simp
  then show "length (Interactions_labels m) = length genotypes" using s(2) g(1,2) by auto
  show "length (self_X m) = length genotypes" using g(1) .
  show "length (self_X_inv m) = length genotypes" using s(3) g(1) by simp
  show "\<forall>i<length genotypes. length (self_X m ! i) = length genotypes" using s(2) g(1) by simp
  show "\<forall>i<length genotypes. length (self_X_inv m ! i) = length genotypes" using s(4) g(1) by simp
qed

lemma local_X_entries:
  assumes "EpistasisModel_init [(CHR ''1'', 1), (CHR ''0'', 0)] wildtype genotypes phenotypes errors
             = Inr m"
    and "j < length genotypes" and "i < length genotypes"
  shows "self_X m ! j ! i = 0 \<or> self_X m ! j ! i = 1"
proof -
  note f = EpistasisModel_init_Inr [OF assms(1)]
  note q = EpistasisModel_init_square [OF assms(1)]
  show ?thesis
    using generate_dv_matrix_shape(3) [OF f(10)] assms(2,3) q(6) dv_entry_local by simp
qed

lemma global_X_entries:
  assumes "EpistasisModel_init [(CHR ''1'', 1), (CHR ''0'', - 1)] wildtype genotypes phenotypes errors
             = Inr m"
    and "j < length genotypes" and "i < length genotypes"
  shows "\<bar>self_X m ! j ! i\<bar> = 1"
proof -
  note f = EpistasisModel_init_Inr [OF assms(1)]
  note q = EpistasisModel_init_square [OF assms(1)]
  have v: "valid_genotype [(CHR ''1'', 1), (CHR ''0'', - 1)] (Interactions_labels m) (genotypes ! j)"
    using f(10) assms(2) unfolding generate_dv_matrix_def
    by (auto simp: list_all_length split: if_splits)
  have "Interactions_labels m ! i \<in> set (Interactions_labels m)" using assms(3) q(6) by simp
  from dv_entry_global [OF v this] show ?thesis
    using generate_dv_matrix_shape(3) [OF f(10)] assms(2,3) q(6) by simp
qed

text \<open>
  Construction in exact arithmetic: it succeeds on a complete design whose matrix has
  an inverse, and it raises LinAlgError when the design is not complete or a genotype
  occurs twice.
\<close>

lemma EpistasisModel_init_succeeds:
  assumes "enumerate_labels (length wildtype) (length wildtype) = Inr labels"
    and "generate_dv_matrix genotypes labels enc = Inr X"
    and "length genotypes = length labels"
    and "\<forall>i<length X. \<forall>j<length X.
           (\<Sum>k<length X. Y i k * X ! k ! j) = (if i = j then 1 else (0::real))"
  shows "\<exists>m. EpistasisModel_init enc wildtype genotypes phenotypes errors = Inr m \<and> self_X m = X"
proof -
  note g = generate_dv_matrix_shape [OF assms(2)]
  have "X \<noteq> []" using enumerate_labels_nonempty [OF assms(1)] assms(3) g(1) by auto
  moreover have "\<forall>i<length X. length (X ! i) = length X" using g(1,2) assms(3) by simp
  ultimately obtain B where "linalg_inv X = Inr B"
    using linalg_inv_complete [of X Y] assms(4) by blast
  then show ?thesis using assms(1,2) by (simp add: EpistasisModel_init_def)
qed

lemma EpistasisModel_init_incomplete:
  assumes "enumerate_labels (length wildtype) (length wildtype) = Inr labels"
    and "generate_dv_matrix genotypes labels enc = Inr X"
    and "length genotypes \<noteq> length labels"
  shows "EpistasisModel_init enc wildtype genotypes phenotypes errors = Inl LinAlgError"
proof -
  note g = generate_dv_matrix_shape [OF assms(2)]
  have "linalg_inv X = Inl LinAlgError"
  proof (cases "X = []")
    case True
    then show ?thesis by (simp add: linalg_inv_def)
  next
    case False
    then have "0 < length genotypes" using g(1) by auto
    then have "length (X ! 0) \<noteq> length X" using g(1,2) assms(3) by simp
    then have "\<not> list_all (\<lambda>r. length r = length X) X"
      using False by (auto simp: list_all_length)
    then show ?thesis by (simp add: linalg_inv_def)
  qed
  then show ?thesis using assms(1,2) by (simp add: EpistasisModel_init_def)
qed

lemma EpistasisModel_init_duplicate:
  assumes "enumerate_labels (length wildtype) (length wildtype) = Inr labels"
    and "generate_dv_matrix genotypes labels enc = Inr X"
    and "i < j" and "j < length genotypes" and "genotypes ! i = genotypes ! j"
  shows "EpistasisModel_init enc wildtype genotypes phenotypes errors = Inl LinAlgError"
proof -
  note g = generate_dv_matrix_shape [OF assms(2)]
  have rows: "X ! i = X ! j"
    using assms(2,3,4,5) unfolding generate_dv_matrix_def by (auto split: if_splits)
  have "linalg_inv X = Inl LinAlgError"
  proof (cases "linalg_inv X")
    case (Inl e)
    then show ?thesis using linalg_inv_Inl by blast
  next
    case (Inr B)
    note s = linalg_inv_sound [OF Inr]
    have "(\<Sum>k<length X. X ! i ! k * B ! k ! i) = 1"
      using s(5) assms(3,4) g(1) by simp
    moreover have "(\<Sum>k<length X. X ! j ! k * B ! k ! i) = 0"
      using s(5) assms(3,4) g(1) by simp
    ultimately show ?thesis using rows by simp
  qed
  then show ?thesis using assms(1,2) by (simp add: EpistasisModel_init_def)
qed

subsection \<open>Fitting a constructed model\<close>

text \<open>What the two \<open>fit\<close> methods return on a constructed model.\<close>

lemma LocalEpistasisModel_fit_constructed:
  assumes "EpistasisModel_init enc wildtype genotypes phenotypes errors = Inr m"
    and "length phenotypes = length genotypes"
  shows "LocalEpistasisModel_fit m =
           Inr (m\<lparr>Interactions_values := Some (mat_vec (self_X_inv m) phenotypes)\<rparr>)"
  using EpistasisModel_init_Inr(2) [OF assms(1)] EpistasisModel_init_square [OF assms(1)] assms(2)
  by (simp add: LocalEpistasisModel_fit_def np_dot_Inr)

lemma GlobalEpistasisModel_fit_constructed:
  assumes "EpistasisModel_init enc wildtype genotypes phenotypes errors = Inr m"
    and "length phenotypes = length genotypes"
  shows "GlobalEpistasisModel_fit m =
           Inr (m\<lparr>Interactions_values :=
                    Some (map ((*) (1 / real (length genotypes)))
                            (mat_vec (self_X_inv m) phenotypes))\<rparr>)"
  using EpistasisModel_init_Inr(2,4) [OF assms(1)] EpistasisModel_init_square [OF assms(1)] assms(2)
  by (simp add: GlobalEpistasisModel_fit_def np_dot_Inr)

text \<open>The round trip on a constructed model, for each variant.\<close>

lemma local_round_trip:
  assumes "EpistasisModel_init enc wildtype genotypes phenotypes errors = Inr m"
    and "length phenotypes = length genotypes"
  shows "and_then (LocalEpistasisModel_fit m) X_dot_coefficients = Inr phenotypes"
proof -
  note f = EpistasisModel_init_Inr [OF assms(1)]
  note q = EpistasisModel_init_square [OF assms(1)]
  have "mat_vec (self_X m) (mat_vec (self_X_inv m) phenotypes) = phenotypes"
    using mat_vec_inverse [OF f(11)] q(2) assms(2) by simp
  then show ?thesis
    using LocalEpistasisModel_fit_constructed [OF assms] q
    by (simp add: and_then_def X_dot_coefficients_def np_dot_Inr)
qed

lemma global_round_trip:
  assumes "EpistasisModel_init enc wildtype genotypes phenotypes errors = Inr m"
    and "length phenotypes = length genotypes"
  shows "and_then (GlobalEpistasisModel_fit m) X_dot_coefficients =
           Inr (map ((*) (1 / real (length genotypes))) phenotypes)"
proof -
  note f = EpistasisModel_init_Inr [OF assms(1)]
  note q = EpistasisModel_init_square [OF assms(1)]
  have "mat_vec (self_X m) (mat_vec (self_X_inv m) phenotypes) = phenotypes"
    using mat_vec_inverse [OF f(11)] q(2) assms(2) by simp
  then show ?thesis
    using GlobalEpistasisModel_fit_constructed [OF assms] q
    by (simp add: and_then_def X_dot_coefficients_def np_dot_Inr mat_vec_scale)
qed

text \<open>What the two \<open>fit_error\<close> methods return on a constructed model.\<close>

lemma LocalEpistasisModel_fit_error_constructed:
  assumes "EpistasisModel_init enc wildtype genotypes phenotypes (Some errs) = Inr m"
    and "length errs = length genotypes"
  shows "LocalEpistasisModel_fit_error m =
           Inr (m\<lparr>Interactions_errors :=
                    Some (map sqrt (mat_vec (self_X m) (map (\<lambda>e. e ^ 2) errs)))\<rparr>)"
  using EpistasisModel_init_Inr(3) [OF assms(1)] EpistasisModel_init_square [OF assms(1)] assms(2)
  by (simp add: LocalEpistasisModel_fit_error_def np_dot_Inr)

lemma GlobalEpistasisModel_fit_error_constructed:
  assumes "EpistasisModel_init enc wildtype genotypes phenotypes (Some errs) = Inr m"
    and "length errs = length genotypes"
  shows "GlobalEpistasisModel_fit_error m =
           Inr (m\<lparr>Interactions_errors :=
                    Some (map sqrt
                            (mat_vec (map (map (\<lambda>x. (1 / real (length genotypes)) ^ 2 * \<bar>x\<bar>)) (self_X m))
                               (map (\<lambda>e. e ^ 2) errs)))\<rparr>)"
  using EpistasisModel_init_Inr(3,4) [OF assms(1)] EpistasisModel_init_square [OF assms(1)] assms(2)
  by (simp add: GlobalEpistasisModel_fit_error_def np_dot_Inr)

subsection \<open>A model of one site, used to instantiate the theorems\<close>

lemma local_example:
  "LocalEpistasisModel_init ''0'' [''0'', ''1''] [1, 3] (Some [3, 4]) =
     Inr \<lparr> self_wildtype = ''0'', Binary_genotypes = [''0'', ''1''],
           Binary_phenotypes = [1, 3], Binary_errors = Some [3, 4],
           self_length = 1, self_n = 2, self_order = 1,
           Interactions_labels = [[], [1]],
           Interactions_values = None, Interactions_errors = None,
           self_X = [[1, 0], [1, 1]], self_X_inv = [[1, 0], [- 1, 1]] \<rparr>"
  by code_simp

lemma global_example:
  "GlobalEpistasisModel_init ''0'' [''0'', ''1''] [1, 3] (Some [3, 4]) =
     Inr \<lparr> self_wildtype = ''0'', Binary_genotypes = [''0'', ''1''],
           Binary_phenotypes = [1, 3], Binary_errors = Some [3, 4],
           self_length = 1, self_n = 2, self_order = 1,
           Interactions_labels = [[], [1]],
           Interactions_values = None, Interactions_errors = None,
           self_X = [[1, - 1], [1, 1]], self_X_inv = [[1 / 2, 1 / 2], [- 1 / 2, 1 / 2]] \<rparr>"
  by code_simp

lemma local_example_no_errors:
  "\<not> isl (LocalEpistasisModel_init ''0'' [''0'', ''1''] [1, 3] None)"
  by code_simp

lemma global_example_no_errors:
  "\<not> isl (GlobalEpistasisModel_init ''0'' [''0'', ''1''] [1, 3] None)"
  by code_simp

subsection \<open>The round trip through the basis\<close>

text \<open>
  Claim C1, as amended. For every complete design on which construction succeeds (the
  design matrix is then square and invertible) and whose phenotype vector has one entry
  per genotype, the product of \<open>X\<close> with the coefficient vector that \<open>fit\<close> writes is the
  phenotype vector for the local model, and the phenotype vector scaled by \<open>1/N\<close> for the
  global model, \<open>N\<close> being the number of genotypes.
\<close>

theorem round_trip_local_and_global:
  assumes "length phenotypes = length genotypes"
  shows "(LocalEpistasisModel_init wildtype genotypes phenotypes errors = Inr m \<longrightarrow>
            and_then (LocalEpistasisModel_fit m) X_dot_coefficients = Inr phenotypes)
       \<and> (GlobalEpistasisModel_init wildtype genotypes phenotypes errors = Inr m \<longrightarrow>
            and_then (GlobalEpistasisModel_fit m) X_dot_coefficients =
              Inr (map ((*) (1 / real (length genotypes))) phenotypes))"
  using assms local_round_trip global_round_trip
  by (simp add: LocalEpistasisModel_init_eq GlobalEpistasisModel_init_eq)

theorem round_trip_local_and_global_witness:
  "and_then (and_then (LocalEpistasisModel_init ''0'' [''0'', ''1''] [1, 3] (Some [3, 4]))
      LocalEpistasisModel_fit) X_dot_coefficients = Inr [1, 3]
   \<and> and_then (and_then (GlobalEpistasisModel_init ''0'' [''0'', ''1''] [1, 3] (Some [3, 4]))
      GlobalEpistasisModel_fit) X_dot_coefficients = Inr [1 / 2, 3 / 2]"
proof -
  let ?ml = "LocalEpistasisModel_init ''0'' [''0'', ''1''] [1, 3] (Some [3, 4])"
  let ?mg = "GlobalEpistasisModel_init ''0'' [''0'', ''1''] [1, 3] (Some [3, 4])"
  obtain ml where ml: "?ml = Inr ml" using local_example by simp
  obtain mg where mg: "?mg = Inr mg" using global_example by simp
  have len: "length [1, 3 :: real] = length [''0'', ''1'']" by simp
  have "and_then (LocalEpistasisModel_fit ml) X_dot_coefficients = Inr [1, 3]"
    using round_trip_local_and_global [OF len, of "''0''" "Some [3, 4]" ml] ml by simp
  moreover have "and_then (GlobalEpistasisModel_fit mg) X_dot_coefficients = Inr [1 / 2, 3 / 2]"
    using round_trip_local_and_global [OF len, of "''0''" "Some [3, 4]" mg] mg by simp
  ultimately show ?thesis using ml mg by (simp add: and_then_def)
qed

text \<open>
  Claim C1 as stated (the round trip gives the phenotypes back for both variants) fails
  for the global model: with one site, the genotypes \<open>0\<close> and \<open>1\<close> and the phenotypes 1
  and 3, the design is complete and invertible, and \<open>X . coefficients\<close> is (1/2, 3/2).
\<close>

theorem round_trip_global_counterexample:
  "and_then (and_then (GlobalEpistasisModel_init ''0'' [''0'', ''1''] [1, 3] None)
      GlobalEpistasisModel_fit) X_dot_coefficients = Inr [1 / 2, 3 / 2]
   \<and> and_then (and_then (GlobalEpistasisModel_init ''0'' [''0'', ''1''] [1, 3] None)
      GlobalEpistasisModel_fit) X_dot_coefficients \<noteq> Inr [1, 3]"
  by code_simp

subsection \<open>The coefficients\<close>

text \<open>
  Claim C2. For every model whose construction succeeds, \<open>self.X_inv\<close> is the inverse of
  \<open>X\<close> on both sides, and \<open>fit\<close> sets the coefficient vector to the product of that inverse
  with the phenotype vector: exactly that product for the local model, and that product
  scaled by \<open>1/N\<close> for the global model, \<open>N\<close> being the number of genotypes.
\<close>

theorem fit_sets_coefficients:
  assumes "length phenotypes = length genotypes"
  shows "(LocalEpistasisModel_init wildtype genotypes phenotypes errors = Inr m \<longrightarrow>
            mat_mul (self_X m) (self_X_inv m) = identity_matrix (length genotypes)
          \<and> mat_mul (self_X_inv m) (self_X m) = identity_matrix (length genotypes)
          \<and> LocalEpistasisModel_fit m =
              Inr (m\<lparr>Interactions_values := Some (mat_vec (self_X_inv m) phenotypes)\<rparr>))
       \<and> (GlobalEpistasisModel_init wildtype genotypes phenotypes errors = Inr m \<longrightarrow>
            mat_mul (self_X m) (self_X_inv m) = identity_matrix (length genotypes)
          \<and> mat_mul (self_X_inv m) (self_X m) = identity_matrix (length genotypes)
          \<and> GlobalEpistasisModel_fit m =
              Inr (m\<lparr>Interactions_values :=
                       Some (map ((*) (1 / real (length genotypes)))
                               (mat_vec (self_X_inv m) phenotypes))\<rparr>))"
proof -
  have inv: "mat_mul (self_X m) (self_X_inv m) = identity_matrix (length genotypes)
          \<and> mat_mul (self_X_inv m) (self_X m) = identity_matrix (length genotypes)"
    if "EpistasisModel_init enc wildtype genotypes phenotypes errors = Inr m" for enc
    using linalg_inv_inverse [OF EpistasisModel_init_Inr(11) [OF that]]
      EpistasisModel_init_square(2) [OF that] by simp
  show ?thesis
    using inv LocalEpistasisModel_fit_constructed [OF _ assms]
      GlobalEpistasisModel_fit_constructed [OF _ assms]
    by (simp add: LocalEpistasisModel_init_eq GlobalEpistasisModel_init_eq)
qed

theorem fit_sets_coefficients_witness:
  "(\<exists>m. LocalEpistasisModel_init ''0'' [''0'', ''1''] [1, 3] (Some [3, 4]) = Inr m
       \<and> mat_mul (self_X m) (self_X_inv m) = [[1, 0], [0, 1]]
       \<and> LocalEpistasisModel_fit m = Inr (m\<lparr>Interactions_values := Some [1, 2]\<rparr>))
   \<and> (\<exists>m. GlobalEpistasisModel_init ''0'' [''0'', ''1''] [1, 3] (Some [3, 4]) = Inr m
       \<and> mat_mul (self_X m) (self_X_inv m) = [[1, 0], [0, 1]]
       \<and> GlobalEpistasisModel_fit m = Inr (m\<lparr>Interactions_values := Some [1, 1 / 2]\<rparr>))"
proof -
  have len: "length [1, 3 :: real] = length [''0'', ''1'']" by simp
  have id2: "identity_matrix (length [''0'', ''1'']) = [[1, 0], [0, 1]]" by code_simp
  have cl: "mat_vec [[1, 0], [- 1, 1]] [1, 3] = [1, 2]" by code_simp
  have cg: "map ((*) (1 / real (length [''0'', ''1''])))
              (mat_vec [[1 / 2, 1 / 2], [- 1 / 2, 1 / 2]] [1, 3]) = [1, 1 / 2]" by code_simp
  note l = fit_sets_coefficients [OF len, of "''0''" "Some [3, 4]", THEN conjunct1, rule_format,
      OF local_example]
  note g = fit_sets_coefficients [OF len, of "''0''" "Some [3, 4]", THEN conjunct2, rule_format,
      OF global_example]
  show ?thesis
    apply (rule conjI)
     apply (rule exI, rule conjI, rule local_example)
    using l id2 cl apply simp
    apply (rule exI, rule conjI, rule global_example)
    using g id2 cg apply simp
    done
qed

subsection \<open>The errors of the coefficients\<close>

text \<open>
  Claim C3. For every local model constructed with phenotype errors (one per genotype),
  \<open>fit_error\<close> sets the error of coefficient \<open>j\<close> to the square root of the dot product of
  row \<open>j\<close> of \<open>X\<close>, taken as it is, with the squared phenotype errors; the entries of \<open>X\<close>
  being 0 or 1, its square is the sum over the genotypes of the squared entry of \<open>X\<close>
  times the squared phenotype error.
\<close>

theorem local_fit_error_propagation:
  assumes "LocalEpistasisModel_init wildtype genotypes phenotypes (Some errs) = Inr m"
    and "length errs = length genotypes"
  shows "\<exists>es. LocalEpistasisModel_fit_error m = Inr (m\<lparr>Interactions_errors := Some es\<rparr>)
     \<and> length es = length genotypes
     \<and> (\<forall>j<length genotypes.
           es ! j = sqrt (\<Sum>i<length genotypes. self_X m ! j ! i * (errs ! i) ^ 2)
         \<and> (es ! j) ^ 2 = (\<Sum>i<length genotypes. (self_X m ! j ! i) ^ 2 * (errs ! i) ^ 2))"
proof -
  let ?n = "length genotypes"
  from assms(1) have init: "EpistasisModel_init [(CHR ''1'', 1), (CHR ''0'', 0)] wildtype genotypes
      phenotypes (Some errs) = Inr m"
    by (simp add: LocalEpistasisModel_init_eq)
  note q = EpistasisModel_init_square [OF init]
  define es where "es = map sqrt (mat_vec (self_X m) (map (\<lambda>e. e ^ 2) errs))"
  have fe: "LocalEpistasisModel_fit_error m = Inr (m\<lparr>Interactions_errors := Some es\<rparr>)"
    unfolding es_def by (rule LocalEpistasisModel_fit_error_constructed [OF init assms(2)])
  have len: "length es = ?n" using q(2) by (simp add: es_def)
  have entry: "es ! j = sqrt (\<Sum>i<?n. self_X m ! j ! i * (errs ! i) ^ 2)" if "j < ?n" for j
  proof -
    have "mat_vec (self_X m) (map (\<lambda>e. e ^ 2) errs) ! j
            = (\<Sum>i<length (map (\<lambda>e. e ^ 2) errs). self_X m ! j ! i * map (\<lambda>e. e ^ 2) errs ! i)"
      using that q(2,4) assms(2) by (intro nth_mat_vec) simp_all
    also have "\<dots> = (\<Sum>i<?n. self_X m ! j ! i * (errs ! i) ^ 2)"
      using assms(2) by simp
    finally show ?thesis using that q(2) by (simp add: es_def)
  qed
  have sq: "(self_X m ! j ! i) ^ 2 = self_X m ! j ! i \<and> 0 \<le> self_X m ! j ! i"
    if "j < ?n" "i < ?n" for i j
    using local_X_entries [OF init that] by auto
  have rule: "(es ! j) ^ 2 = (\<Sum>i<?n. (self_X m ! j ! i) ^ 2 * (errs ! i) ^ 2)" if "j < ?n" for j
  proof -
    have "0 \<le> (\<Sum>i<?n. self_X m ! j ! i * (errs ! i) ^ 2)"
      using sq [OF that] by (intro sum_nonneg) simp
    then have "(es ! j) ^ 2 = (\<Sum>i<?n. self_X m ! j ! i * (errs ! i) ^ 2)"
      using entry [OF that] by simp
    also have "\<dots> = (\<Sum>i<?n. (self_X m ! j ! i) ^ 2 * (errs ! i) ^ 2)"
      using sq [OF that] by (intro sum.cong) simp_all
    finally show ?thesis .
  qed
  show ?thesis using fe len entry rule by blast
qed

theorem local_fit_error_propagation_witness:
  "\<exists>m es. LocalEpistasisModel_init ''0'' [''0'', ''1''] [1, 3] (Some [3, 4]) = Inr m
     \<and> LocalEpistasisModel_fit_error m = Inr (m\<lparr>Interactions_errors := Some es\<rparr>)
     \<and> length es = 2 \<and> es ! 0 = 3 \<and> es ! 1 = 5 \<and> (es ! 1) ^ 2 = 25"
proof -
  let ?m = "\<lparr> self_wildtype = ''0'', Binary_genotypes = [''0'', ''1''],
           Binary_phenotypes = [1, 3], Binary_errors = Some [3, 4],
           self_length = 1, self_n = 2, self_order = 1,
           Interactions_labels = [[], [1]],
           Interactions_values = None, Interactions_errors = None,
           self_X = [[1, 0], [1, 1]], self_X_inv = [[1, 0], [- 1, 1]] \<rparr>"
  have len: "length [3, 4 :: real] = length [''0'', ''1'']" by simp
  from local_fit_error_propagation [OF local_example len]
  obtain es where es: "LocalEpistasisModel_fit_error ?m = Inr (?m\<lparr>Interactions_errors := Some es\<rparr>)"
    "length es = length [''0'', ''1'']"
    "\<forall>j<length [''0'', ''1''].
        es ! j = sqrt (\<Sum>i<length [''0'', ''1'']. self_X ?m ! j ! i * ([3, 4] ! i) ^ 2)
      \<and> (es ! j) ^ 2 = (\<Sum>i<length [''0'', ''1'']. (self_X ?m ! j ! i) ^ 2 * ([3, 4] ! i) ^ 2)"
    by blast
  have two: "{..<2::nat} = {0, 1}" by auto
  have s9: "sqrt 9 = 3" and s25: "sqrt 25 = 5"
    using real_sqrt_abs [of 3] real_sqrt_abs [of 5] by simp_all
  have e0: "es ! 0 = 3" using es(3) [rule_format, of 0] by (simp add: two s9)
  have e1: "es ! 1 = 5" using es(3) [rule_format, of 1] by (simp add: two s25)
  have e2: "(es ! 1) ^ 2 = 25" using e1 by simp
  from es(1,2) e0 e1 e2 local_example show ?thesis by auto
qed

text \<open>
  Claim C4. For every global model constructed with phenotype errors (one per genotype),
  \<open>fit_error\<close> sets the error of coefficient \<open>j\<close> to the square root of the dot product of
  row \<open>j\<close> of the elementwise absolute value of \<open>X\<close>, scaled by \<open>(1/N)\<^sup>2\<close>, with the
  squared phenotype errors. The absolute values are all 1, so every coefficient gets the
  same error, the root of the sum of the squared phenotype errors divided by \<open>N\<close>.
\<close>

theorem global_fit_error_propagation:
  assumes "GlobalEpistasisModel_init wildtype genotypes phenotypes (Some errs) = Inr m"
    and "length errs = length genotypes"
  shows "\<exists>es. GlobalEpistasisModel_fit_error m = Inr (m\<lparr>Interactions_errors := Some es\<rparr>)
     \<and> length es = length genotypes
     \<and> (\<forall>j<length genotypes.
           es ! j = sqrt (\<Sum>i<length genotypes.
                            ((1 / real (length genotypes)) ^ 2 * \<bar>self_X m ! j ! i\<bar>) * (errs ! i) ^ 2)
         \<and> es ! j = sqrt (\<Sum>i<length genotypes. (errs ! i) ^ 2) / real (length genotypes))"
proof -
  let ?n = "length genotypes"
  let ?c = "(1 / real ?n) ^ 2"
  let ?A = "map (map (\<lambda>x. ?c * \<bar>x\<bar>)) (self_X m)"
  from assms(1) have init: "EpistasisModel_init [(CHR ''1'', 1), (CHR ''0'', - 1)] wildtype genotypes
      phenotypes (Some errs) = Inr m"
    by (simp add: GlobalEpistasisModel_init_eq)
  note q = EpistasisModel_init_square [OF init]
  define es where "es = map sqrt (mat_vec ?A (map (\<lambda>e. e ^ 2) errs))"
  have fe: "GlobalEpistasisModel_fit_error m = Inr (m\<lparr>Interactions_errors := Some es\<rparr>)"
    unfolding es_def by (rule GlobalEpistasisModel_fit_error_constructed [OF init assms(2)])
  have len: "length es = ?n" using q(2) by (simp add: es_def)
  have entry: "es ! j = sqrt (\<Sum>i<?n. (?c * \<bar>self_X m ! j ! i\<bar>) * (errs ! i) ^ 2)"
    if "j < ?n" for j
  proof -
    have "mat_vec ?A (map (\<lambda>e. e ^ 2) errs) ! j
            = (\<Sum>i<length (map (\<lambda>e. e ^ 2) errs). ?A ! j ! i * map (\<lambda>e. e ^ 2) errs ! i)"
      using that q(2,4) assms(2) by (intro nth_mat_vec) simp_all
    also have "\<dots> = (\<Sum>i<?n. (?c * \<bar>self_X m ! j ! i\<bar>) * (errs ! i) ^ 2)"
      using assms(2) that q(2,4) by (intro sum.cong) simp_all
    finally show ?thesis using that q(2) by (simp add: es_def)
  qed
  have ones: "es ! j = sqrt (\<Sum>i<?n. (errs ! i) ^ 2) / real ?n" if "j < ?n" for j
  proof -
    have "(\<Sum>i<?n. (?c * \<bar>self_X m ! j ! i\<bar>) * (errs ! i) ^ 2) = (\<Sum>i<?n. ?c * (errs ! i) ^ 2)"
      using global_X_entries [OF init that] by (intro sum.cong) simp_all
    also have "\<dots> = ?c * (\<Sum>i<?n. (errs ! i) ^ 2)" by (simp add: sum_distrib_left)
    finally have "es ! j = sqrt (?c * (\<Sum>i<?n. (errs ! i) ^ 2))" using entry [OF that] by simp
    then show ?thesis by (simp add: real_sqrt_mult real_sqrt_divide power_divide)
  qed
  show ?thesis using fe len entry ones by blast
qed

theorem global_fit_error_propagation_witness:
  "\<exists>m es. GlobalEpistasisModel_init ''0'' [''0'', ''1''] [1, 3] (Some [3, 4]) = Inr m
     \<and> GlobalEpistasisModel_fit_error m = Inr (m\<lparr>Interactions_errors := Some es\<rparr>)
     \<and> length es = 2 \<and> es ! 0 = 5 / 2 \<and> es ! 1 = 5 / 2"
proof -
  let ?m = "\<lparr> self_wildtype = ''0'', Binary_genotypes = [''0'', ''1''],
           Binary_phenotypes = [1, 3], Binary_errors = Some [3, 4],
           self_length = 1, self_n = 2, self_order = 1,
           Interactions_labels = [[], [1]],
           Interactions_values = None, Interactions_errors = None,
           self_X = [[1, - 1], [1, 1]], self_X_inv = [[1 / 2, 1 / 2], [- 1 / 2, 1 / 2]] \<rparr>"
  have len: "length [3, 4 :: real] = length [''0'', ''1'']" by simp
  from global_fit_error_propagation [OF global_example len]
  obtain es where es: "GlobalEpistasisModel_fit_error ?m = Inr (?m\<lparr>Interactions_errors := Some es\<rparr>)"
    "length es = length [''0'', ''1'']"
    "\<forall>j<length [''0'', ''1''].
        es ! j = sqrt (\<Sum>i<length [''0'', ''1''].
                         ((1 / real (length [''0'', ''1''])) ^ 2 * \<bar>self_X ?m ! j ! i\<bar>) * ([3, 4] ! i) ^ 2)
      \<and> es ! j = sqrt (\<Sum>i<length [''0'', ''1'']. ([3, 4] ! i) ^ 2) / real (length [''0'', ''1''])"
    by blast
  have two: "{..<2::nat} = {0, 1}" by auto
  have s25: "sqrt 25 = 5" using real_sqrt_abs [of 5] by simp
  have e0: "es ! 0 = 5 / 2"
    using es(3) [rule_format, of 0, THEN conjunct2] by (simp add: two s25)
  have e1: "es ! 1 = 5 / 2"
    using es(3) [rule_format, of 1, THEN conjunct2] by (simp add: two s25)
  from es(1,2) e0 e1 global_example show ?thesis by auto
qed

subsection \<open>The two variants\<close>

text \<open>
  Claim C5. The two constructors are one construction at two encodings: both encodings
  map the character \<open>1\<close> to 1, the local one maps \<open>0\<close> to 0 and the global one maps \<open>0\<close>
  to -1. When both succeed on the same arguments the two models agree on every field
  but \<open>X\<close> and its inverse (the labels in particular), and each \<open>X\<close> is the design matrix
  of the same genotypes and labels under its encoding.
\<close>

theorem variants_differ_in_encoding_only:
  "LocalEpistasisModel_init wildtype genotypes phenotypes errors =
     EpistasisModel_init [(CHR ''1'', 1), (CHR ''0'', 0)] wildtype genotypes phenotypes errors
   \<and> GlobalEpistasisModel_init wildtype genotypes phenotypes errors =
     EpistasisModel_init [(CHR ''1'', 1), (CHR ''0'', - 1)] wildtype genotypes phenotypes errors
   \<and> encode [(CHR ''1'', 1), (CHR ''0'', 0)] (CHR ''1'') = 1
   \<and> encode [(CHR ''1'', 1), (CHR ''0'', 0)] (CHR ''0'') = 0
   \<and> encode [(CHR ''1'', 1), (CHR ''0'', - 1)] (CHR ''1'') = 1
   \<and> encode [(CHR ''1'', 1), (CHR ''0'', - 1)] (CHR ''0'') = - 1
   \<and> (LocalEpistasisModel_init wildtype genotypes phenotypes errors = Inr ml
        \<longrightarrow> GlobalEpistasisModel_init wildtype genotypes phenotypes errors = Inr mg
        \<longrightarrow> mg = ml\<lparr>self_X := self_X mg, self_X_inv := self_X_inv mg\<rparr>
          \<and> Interactions_labels mg = Interactions_labels ml
          \<and> generate_dv_matrix genotypes (Interactions_labels ml)
                [(CHR ''1'', 1), (CHR ''0'', 0)] = Inr (self_X ml)
          \<and> generate_dv_matrix genotypes (Interactions_labels ml)
                [(CHR ''1'', 1), (CHR ''0'', - 1)] = Inr (self_X mg))"
proof -
  have "mg = ml\<lparr>self_X := self_X mg, self_X_inv := self_X_inv mg\<rparr>
          \<and> Interactions_labels mg = Interactions_labels ml
          \<and> generate_dv_matrix genotypes (Interactions_labels ml)
                [(CHR ''1'', 1), (CHR ''0'', 0)] = Inr (self_X ml)
          \<and> generate_dv_matrix genotypes (Interactions_labels ml)
                [(CHR ''1'', 1), (CHR ''0'', - 1)] = Inr (self_X mg)"
    if l: "EpistasisModel_init [(CHR ''1'', 1), (CHR ''0'', 0)] wildtype genotypes phenotypes errors
             = Inr ml"
      and g: "EpistasisModel_init [(CHR ''1'', 1), (CHR ''0'', - 1)] wildtype genotypes phenotypes errors
             = Inr mg"
    using EpistasisModel_init_Inr [OF l] EpistasisModel_init_Inr [OF g]
    by (cases ml, cases mg) simp
  then show ?thesis
    by (simp add: LocalEpistasisModel_init_eq GlobalEpistasisModel_init_eq encode_def)
qed

theorem variants_differ_in_encoding_only_witness:
  "\<exists>ml mg. LocalEpistasisModel_init ''0'' [''0'', ''1''] [1, 3] (Some [3, 4]) = Inr ml
     \<and> GlobalEpistasisModel_init ''0'' [''0'', ''1''] [1, 3] (Some [3, 4]) = Inr mg
     \<and> mg = ml\<lparr>self_X := self_X mg, self_X_inv := self_X_inv mg\<rparr>
     \<and> generate_dv_matrix [''0'', ''1''] (Interactions_labels ml) [(CHR ''1'', 1), (CHR ''0'', 0)]
          = Inr [[1, 0], [1, 1]]
     \<and> generate_dv_matrix [''0'', ''1''] (Interactions_labels ml) [(CHR ''1'', 1), (CHR ''0'', - 1)]
          = Inr [[1, - 1], [1, 1]]"
proof -
  let ?ml = "\<lparr> self_wildtype = ''0'', Binary_genotypes = [''0'', ''1''],
           Binary_phenotypes = [1, 3], Binary_errors = Some [3, 4],
           self_length = 1, self_n = 2, self_order = 1,
           Interactions_labels = [[], [1]],
           Interactions_values = None, Interactions_errors = None,
           self_X = [[1, 0], [1, 1]], self_X_inv = [[1, 0], [- 1, 1]] \<rparr>"
  let ?mg = "\<lparr> self_wildtype = ''0'', Binary_genotypes = [''0'', ''1''],
           Binary_phenotypes = [1, 3], Binary_errors = Some [3, 4],
           self_length = 1, self_n = 2, self_order = 1,
           Interactions_labels = [[], [1]],
           Interactions_values = None, Interactions_errors = None,
           self_X = [[1, - 1], [1, 1]], self_X_inv = [[1 / 2, 1 / 2], [- 1 / 2, 1 / 2]] \<rparr>"
  have "?mg = ?ml\<lparr>self_X := self_X ?mg, self_X_inv := self_X_inv ?mg\<rparr>
          \<and> Interactions_labels ?mg = Interactions_labels ?ml
          \<and> generate_dv_matrix [''0'', ''1''] (Interactions_labels ?ml)
                [(CHR ''1'', 1), (CHR ''0'', 0)] = Inr (self_X ?ml)
          \<and> generate_dv_matrix [''0'', ''1''] (Interactions_labels ?ml)
                [(CHR ''1'', 1), (CHR ''0'', - 1)] = Inr (self_X ?mg)"
    using variants_differ_in_encoding_only [of "''0''" "[''0'', ''1'']" "[1, 3]" "Some [3, 4]" ?ml ?mg]
      local_example global_example
    by blast
  then show ?thesis
    using local_example global_example
    by (intro exI [of _ ?ml] exI [of _ ?mg]) simp
qed

subsection \<open>What \<open>fit\<close> and \<open>fit_error\<close> change\<close>

lemma LocalEpistasisModel_fit_Inr:
  assumes "LocalEpistasisModel_fit m = Inr m'"
  shows "m' = m\<lparr>Interactions_values := Some (mat_vec (self_X_inv m) (Binary_phenotypes m))\<rparr>"
    and "LocalEpistasisModel_fit m' = Inr m'"
  using assms by (auto simp: LocalEpistasisModel_fit_def np_dot_def split: sum.splits if_splits)

lemma GlobalEpistasisModel_fit_Inr:
  assumes "GlobalEpistasisModel_fit m = Inr m'"
  shows "m' = m\<lparr>Interactions_values :=
                Some (map ((*) (1 / real (self_n m)))
                        (mat_vec (self_X_inv m) (Binary_phenotypes m)))\<rparr>"
    and "GlobalEpistasisModel_fit m' = Inr m'"
  using assms by (auto simp: GlobalEpistasisModel_fit_def np_dot_def split: sum.splits if_splits)

lemma LocalEpistasisModel_fit_error_Inr:
  assumes "LocalEpistasisModel_fit_error m = Inr m'"
  shows "\<exists>errs. Binary_errors m = Some errs
           \<and> m' = m\<lparr>Interactions_errors :=
                      Some (map sqrt (mat_vec (self_X m) (map (\<lambda>e. e ^ 2) errs)))\<rparr>"
    and "LocalEpistasisModel_fit_error m' = Inr m'"
  using assms
  by (auto simp: LocalEpistasisModel_fit_error_def np_dot_def split: sum.splits if_splits option.splits)

lemma GlobalEpistasisModel_fit_error_Inr:
  assumes "GlobalEpistasisModel_fit_error m = Inr m'"
  shows "\<exists>errs. Binary_errors m = Some errs
           \<and> m' = m\<lparr>Interactions_errors :=
                      Some (map sqrt
                              (mat_vec (map (map (\<lambda>x. (1 / real (self_n m)) ^ 2 * \<bar>x\<bar>)) (self_X m))
                                 (map (\<lambda>e. e ^ 2) errs)))\<rparr>"
    and "GlobalEpistasisModel_fit_error m' = Inr m'"
  using assms
  by (auto simp: GlobalEpistasisModel_fit_error_def np_dot_def split: sum.splits if_splits option.splits)

text \<open>A method changes the two output vectors at most, and calls neither the matrix
  builder nor the inversion.\<close>

lemma LocalEpistasisModel_method_frame:
  "(case LocalEpistasisModel_method c m of Inl e \<Rightarrow> m | Inr m' \<Rightarrow> m')
     = m\<lparr>Interactions_values :=
            Interactions_values (case LocalEpistasisModel_method c m of Inl e \<Rightarrow> m | Inr m' \<Rightarrow> m'),
          Interactions_errors :=
            Interactions_errors (case LocalEpistasisModel_method c m of Inl e \<Rightarrow> m | Inr m' \<Rightarrow> m')\<rparr>"
proof (cases c)
  case Fit
  then show ?thesis
    using LocalEpistasisModel_fit_Inr(1) [of m]
    by (cases "LocalEpistasisModel_fit m") auto
next
  case Fit_error
  then show ?thesis
    using LocalEpistasisModel_fit_error_Inr(1) [of m]
    by (cases "LocalEpistasisModel_fit_error m") auto
qed

lemma GlobalEpistasisModel_method_frame:
  "(case GlobalEpistasisModel_method c m of Inl e \<Rightarrow> m | Inr m' \<Rightarrow> m')
     = m\<lparr>Interactions_values :=
            Interactions_values (case GlobalEpistasisModel_method c m of Inl e \<Rightarrow> m | Inr m' \<Rightarrow> m'),
          Interactions_errors :=
            Interactions_errors (case GlobalEpistasisModel_method c m of Inl e \<Rightarrow> m | Inr m' \<Rightarrow> m')\<rparr>"
proof (cases c)
  case Fit
  then show ?thesis
    using GlobalEpistasisModel_fit_Inr(1) [of m]
    by (cases "GlobalEpistasisModel_fit m") auto
next
  case Fit_error
  then show ?thesis
    using GlobalEpistasisModel_fit_error_Inr(1) [of m]
    by (cases "GlobalEpistasisModel_fit_error m") auto
qed

lemma after_methods_frame:
  assumes "\<And>c m. (case run c m of Inl e \<Rightarrow> m | Inr m' \<Rightarrow> m')
     = m\<lparr>Interactions_values := Interactions_values (case run c m of Inl e \<Rightarrow> m | Inr m' \<Rightarrow> m'),
          Interactions_errors := Interactions_errors (case run c m of Inl e \<Rightarrow> m | Inr m' \<Rightarrow> m')\<rparr>"
  shows "after_methods run cs m
     = m\<lparr>Interactions_values := Interactions_values (after_methods run cs m),
          Interactions_errors := Interactions_errors (after_methods run cs m)\<rparr>"
proof (induction cs arbitrary: m)
  case Nil
  then show ?case by simp
next
  case (Cons c cs)
  let ?m1 = "case run c m of Inl e \<Rightarrow> m | Inr m' \<Rightarrow> m'"
  have 1: "?m1 = m\<lparr>Interactions_values := Interactions_values ?m1,
                     Interactions_errors := Interactions_errors ?m1\<rparr>"
    by (rule assms)
  have 2: "after_methods run cs ?m1
     = ?m1\<lparr>Interactions_values := Interactions_values (after_methods run cs ?m1),
            Interactions_errors := Interactions_errors (after_methods run cs ?m1)\<rparr>"
    by (rule Cons.IH)
  have "after_methods run cs ?m1
     = m\<lparr>Interactions_values := Interactions_values (after_methods run cs ?m1),
            Interactions_errors := Interactions_errors (after_methods run cs ?m1)\<rparr>"
    by (subst 2, subst 1) simp
  then show ?case by simp
qed

lemma calls_of_methods_local:
  "set (calls_of_methods LocalEpistasisModel_method LocalEpistasisModel_method_calls cs m)
     \<subseteq> {Call_dot}"
proof (induction cs arbitrary: m)
  case Nil
  then show ?case by simp
next
  case (Cons c cs)
  have "set (LocalEpistasisModel_method_calls c m) \<subseteq> {Call_dot}"
    by (cases c)
      (auto simp: LocalEpistasisModel_fit_calls_def LocalEpistasisModel_fit_error_calls_def
        split: option.splits)
  then show ?case using Cons.IH by auto
qed

lemma calls_of_methods_global:
  "set (calls_of_methods GlobalEpistasisModel_method GlobalEpistasisModel_method_calls cs m)
     \<subseteq> {Call_dot}"
proof (induction cs arbitrary: m)
  case Nil
  then show ?case by simp
next
  case (Cons c cs)
  have "set (GlobalEpistasisModel_method_calls c m) \<subseteq> {Call_dot}"
    by (cases c)
      (auto simp: GlobalEpistasisModel_fit_calls_def GlobalEpistasisModel_fit_error_calls_def
        split: option.splits)
  then show ?case using Cons.IH by auto
qed

lemma LocalEpistasisModel_init_calls_Inr:
  "LocalEpistasisModel_init wildtype genotypes phenotypes errors = Inr m
    \<Longrightarrow> LocalEpistasisModel_init_calls wildtype genotypes phenotypes errors
          = [Call_generate_dv_matrix, Call_linalg_inv]"
  unfolding LocalEpistasisModel_init_def LocalEpistasisModel_init_calls_def
  by (auto simp: Let_def split: sum.splits)

lemma GlobalEpistasisModel_init_calls_Inr:
  "GlobalEpistasisModel_init wildtype genotypes phenotypes errors = Inr m
    \<Longrightarrow> GlobalEpistasisModel_init_calls wildtype genotypes phenotypes errors
          = [Call_generate_dv_matrix, Call_linalg_inv]"
  unfolding GlobalEpistasisModel_init_def GlobalEpistasisModel_init_calls_def
  by (auto simp: Let_def split: sum.splits)


text \<open>
  Claim C6. \<open>X\<close> and its inverse are computed once each, by the constructor: its calls
  are one call of the matrix builder and one of the inversion, and the stored inverse is
  the inversion of the stored \<open>X\<close>. \<open>fit\<close> returns the model it was given with the
  coefficient vector set to the product of the stored inverse with the phenotypes
  (scaled by \<open>1/N\<close> for the global model) and nothing else changed; \<open>fit_error\<close> returns
  it with the error vector set to the roots of the product with the squared phenotype
  errors and nothing else changed; a second call of either gives the same model. After
  any sequence of calls of the two methods the model differs from the constructed one in
  the coefficient and error vectors at most, \<open>X\<close> and its inverse are the stored ones,
  and neither the matrix builder nor the inversion has been called again.
\<close>

theorem fit_changes_coefficients_only:
  "(LocalEpistasisModel_fit m = Inr m' \<longrightarrow>
      m' = m\<lparr>Interactions_values := Some (mat_vec (self_X_inv m) (Binary_phenotypes m))\<rparr>
      \<and> self_X m' = self_X m \<and> self_X_inv m' = self_X_inv m
      \<and> LocalEpistasisModel_fit m' = Inr m')
   \<and> (GlobalEpistasisModel_fit m = Inr m' \<longrightarrow>
      m' = m\<lparr>Interactions_values :=
                Some (map ((*) (1 / real (self_n m)))
                        (mat_vec (self_X_inv m) (Binary_phenotypes m)))\<rparr>
      \<and> self_X m' = self_X m \<and> self_X_inv m' = self_X_inv m
      \<and> GlobalEpistasisModel_fit m' = Inr m')
   \<and> (LocalEpistasisModel_fit_error m = Inr m' \<longrightarrow>
      (\<exists>errs. Binary_errors m = Some errs
         \<and> m' = m\<lparr>Interactions_errors :=
                    Some (map sqrt (mat_vec (self_X m) (map (\<lambda>e. e ^ 2) errs)))\<rparr>)
      \<and> self_X m' = self_X m \<and> self_X_inv m' = self_X_inv m
      \<and> LocalEpistasisModel_fit_error m' = Inr m')
   \<and> (GlobalEpistasisModel_fit_error m = Inr m' \<longrightarrow>
      (\<exists>errs. Binary_errors m = Some errs
         \<and> m' = m\<lparr>Interactions_errors :=
                    Some (map sqrt
                            (mat_vec (map (map (\<lambda>x. (1 / real (self_n m)) ^ 2 * \<bar>x\<bar>)) (self_X m))
                               (map (\<lambda>e. e ^ 2) errs)))\<rparr>)
      \<and> self_X m' = self_X m \<and> self_X_inv m' = self_X_inv m
      \<and> GlobalEpistasisModel_fit_error m' = Inr m')
   \<and> (LocalEpistasisModel_init wildtype genotypes phenotypes errors = Inr m \<longrightarrow>
      generate_dv_matrix genotypes (Interactions_labels m) [(CHR ''1'', 1), (CHR ''0'', 0)]
        = Inr (self_X m)
      \<and> linalg_inv (self_X m) = Inr (self_X_inv m)
      \<and> LocalEpistasisModel_init_calls wildtype genotypes phenotypes errors
          = [Call_generate_dv_matrix, Call_linalg_inv])
   \<and> (GlobalEpistasisModel_init wildtype genotypes phenotypes errors = Inr m \<longrightarrow>
      generate_dv_matrix genotypes (Interactions_labels m) [(CHR ''1'', 1), (CHR ''0'', - 1)]
        = Inr (self_X m)
      \<and> linalg_inv (self_X m) = Inr (self_X_inv m)
      \<and> GlobalEpistasisModel_init_calls wildtype genotypes phenotypes errors
          = [Call_generate_dv_matrix, Call_linalg_inv])
   \<and> (after_methods LocalEpistasisModel_method cs m
        = m\<lparr>Interactions_values :=
               Interactions_values (after_methods LocalEpistasisModel_method cs m),
             Interactions_errors :=
               Interactions_errors (after_methods LocalEpistasisModel_method cs m)\<rparr>
      \<and> self_X (after_methods LocalEpistasisModel_method cs m) = self_X m
      \<and> self_X_inv (after_methods LocalEpistasisModel_method cs m) = self_X_inv m
      \<and> Call_generate_dv_matrix
          \<notin> set (calls_of_methods LocalEpistasisModel_method LocalEpistasisModel_method_calls cs m)
      \<and> Call_linalg_inv
          \<notin> set (calls_of_methods LocalEpistasisModel_method LocalEpistasisModel_method_calls cs m))
   \<and> (after_methods GlobalEpistasisModel_method cs m
        = m\<lparr>Interactions_values :=
               Interactions_values (after_methods GlobalEpistasisModel_method cs m),
             Interactions_errors :=
               Interactions_errors (after_methods GlobalEpistasisModel_method cs m)\<rparr>
      \<and> self_X (after_methods GlobalEpistasisModel_method cs m) = self_X m
      \<and> self_X_inv (after_methods GlobalEpistasisModel_method cs m) = self_X_inv m
      \<and> Call_generate_dv_matrix
          \<notin> set (calls_of_methods GlobalEpistasisModel_method GlobalEpistasisModel_method_calls cs m)
      \<and> Call_linalg_inv
          \<notin> set (calls_of_methods GlobalEpistasisModel_method GlobalEpistasisModel_method_calls cs m))"
proof -
  have lf: "LocalEpistasisModel_fit m = Inr m' \<longrightarrow>
      m' = m\<lparr>Interactions_values := Some (mat_vec (self_X_inv m) (Binary_phenotypes m))\<rparr>
      \<and> self_X m' = self_X m \<and> self_X_inv m' = self_X_inv m
      \<and> LocalEpistasisModel_fit m' = Inr m'"
    using LocalEpistasisModel_fit_Inr [of m m'] by auto
  have gf: "GlobalEpistasisModel_fit m = Inr m' \<longrightarrow>
      m' = m\<lparr>Interactions_values :=
                Some (map ((*) (1 / real (self_n m)))
                        (mat_vec (self_X_inv m) (Binary_phenotypes m)))\<rparr>
      \<and> self_X m' = self_X m \<and> self_X_inv m' = self_X_inv m
      \<and> GlobalEpistasisModel_fit m' = Inr m'"
    using GlobalEpistasisModel_fit_Inr [of m m'] by auto
  have le: "LocalEpistasisModel_fit_error m = Inr m' \<longrightarrow>
      (\<exists>errs. Binary_errors m = Some errs
         \<and> m' = m\<lparr>Interactions_errors :=
                    Some (map sqrt (mat_vec (self_X m) (map (\<lambda>e. e ^ 2) errs)))\<rparr>)
      \<and> self_X m' = self_X m \<and> self_X_inv m' = self_X_inv m
      \<and> LocalEpistasisModel_fit_error m' = Inr m'"
    using LocalEpistasisModel_fit_error_Inr [of m m'] by auto
  have ge: "GlobalEpistasisModel_fit_error m = Inr m' \<longrightarrow>
      (\<exists>errs. Binary_errors m = Some errs
         \<and> m' = m\<lparr>Interactions_errors :=
                    Some (map sqrt
                            (mat_vec (map (map (\<lambda>x. (1 / real (self_n m)) ^ 2 * \<bar>x\<bar>)) (self_X m))
                               (map (\<lambda>e. e ^ 2) errs)))\<rparr>)
      \<and> self_X m' = self_X m \<and> self_X_inv m' = self_X_inv m
      \<and> GlobalEpistasisModel_fit_error m' = Inr m'"
    using GlobalEpistasisModel_fit_error_Inr [of m m'] by auto
  have li: "LocalEpistasisModel_init wildtype genotypes phenotypes errors = Inr m \<longrightarrow>
      generate_dv_matrix genotypes (Interactions_labels m) [(CHR ''1'', 1), (CHR ''0'', 0)]
        = Inr (self_X m)
      \<and> linalg_inv (self_X m) = Inr (self_X_inv m)
      \<and> LocalEpistasisModel_init_calls wildtype genotypes phenotypes errors
          = [Call_generate_dv_matrix, Call_linalg_inv]"
  proof
    assume a: "LocalEpistasisModel_init wildtype genotypes phenotypes errors = Inr m"
    then have "EpistasisModel_init [(CHR ''1'', 1), (CHR ''0'', 0)] wildtype genotypes
        phenotypes errors = Inr m"
      by (simp add: LocalEpistasisModel_init_eq)
    from EpistasisModel_init_Inr(10,11) [OF this] LocalEpistasisModel_init_calls_Inr [OF a]
    show "generate_dv_matrix genotypes (Interactions_labels m) [(CHR ''1'', 1), (CHR ''0'', 0)]
        = Inr (self_X m)
      \<and> linalg_inv (self_X m) = Inr (self_X_inv m)
      \<and> LocalEpistasisModel_init_calls wildtype genotypes phenotypes errors
          = [Call_generate_dv_matrix, Call_linalg_inv]"
      by simp
  qed
  have gi: "GlobalEpistasisModel_init wildtype genotypes phenotypes errors = Inr m \<longrightarrow>
      generate_dv_matrix genotypes (Interactions_labels m) [(CHR ''1'', 1), (CHR ''0'', - 1)]
        = Inr (self_X m)
      \<and> linalg_inv (self_X m) = Inr (self_X_inv m)
      \<and> GlobalEpistasisModel_init_calls wildtype genotypes phenotypes errors
          = [Call_generate_dv_matrix, Call_linalg_inv]"
  proof
    assume a: "GlobalEpistasisModel_init wildtype genotypes phenotypes errors = Inr m"
    then have "EpistasisModel_init [(CHR ''1'', 1), (CHR ''0'', - 1)] wildtype genotypes
        phenotypes errors = Inr m"
      by (simp add: GlobalEpistasisModel_init_eq)
    from EpistasisModel_init_Inr(10,11) [OF this] GlobalEpistasisModel_init_calls_Inr [OF a]
    show "generate_dv_matrix genotypes (Interactions_labels m) [(CHR ''1'', 1), (CHR ''0'', - 1)]
        = Inr (self_X m)
      \<and> linalg_inv (self_X m) = Inr (self_X_inv m)
      \<and> GlobalEpistasisModel_init_calls wildtype genotypes phenotypes errors
          = [Call_generate_dv_matrix, Call_linalg_inv]"
      by simp
  qed
  let ?al = "after_methods LocalEpistasisModel_method cs m"
  let ?ag = "after_methods GlobalEpistasisModel_method cs m"
  have fl: "?al = m\<lparr>Interactions_values := Interactions_values ?al,
                    Interactions_errors := Interactions_errors ?al\<rparr>"
    by (rule after_methods_frame) (rule LocalEpistasisModel_method_frame)
  have fg: "?ag = m\<lparr>Interactions_values := Interactions_values ?ag,
                    Interactions_errors := Interactions_errors ?ag\<rparr>"
    by (rule after_methods_frame) (rule GlobalEpistasisModel_method_frame)
  have xl: "self_X ?al = self_X m" "self_X_inv ?al = self_X_inv m"
    by (subst fl, simp)+
  have xg: "self_X ?ag = self_X m" "self_X_inv ?ag = self_X_inv m"
    by (subst fg, simp)+
  have cl: "Call_generate_dv_matrix
          \<notin> set (calls_of_methods LocalEpistasisModel_method LocalEpistasisModel_method_calls cs m)"
      "Call_linalg_inv
          \<notin> set (calls_of_methods LocalEpistasisModel_method LocalEpistasisModel_method_calls cs m)"
    using calls_of_methods_local [of cs m] by auto
  have cg: "Call_generate_dv_matrix
          \<notin> set (calls_of_methods GlobalEpistasisModel_method GlobalEpistasisModel_method_calls cs m)"
      "Call_linalg_inv
          \<notin> set (calls_of_methods GlobalEpistasisModel_method GlobalEpistasisModel_method_calls cs m)"
    using calls_of_methods_global [of cs m] by auto
  from lf gf le ge li gi fl fg xl xg cl cg show ?thesis by (intro conjI)
qed


theorem fit_changes_coefficients_only_witness:
  "(\<exists>m m'. LocalEpistasisModel_init ''0'' [''0'', ''1''] [1, 3] (Some [3, 4]) = Inr m
      \<and> LocalEpistasisModel_init_calls ''0'' [''0'', ''1''] [1, 3] (Some [3, 4])
          = [Call_generate_dv_matrix, Call_linalg_inv]
      \<and> LocalEpistasisModel_fit m = Inr m'
      \<and> m' = m\<lparr>Interactions_values := Some [1, 2]\<rparr>
      \<and> LocalEpistasisModel_fit m' = Inr m')
   \<and> (\<exists>m m'. LocalEpistasisModel_init ''0'' [''0'', ''1''] [1, 3] (Some [3, 4]) = Inr m
      \<and> LocalEpistasisModel_fit_error m = Inr m'
      \<and> m' = m\<lparr>Interactions_errors := Some [3, 5]\<rparr>
      \<and> self_X m' = self_X m \<and> self_X_inv m' = self_X_inv m)
   \<and> (\<exists>m m'. GlobalEpistasisModel_init ''0'' [''0'', ''1''] [1, 3] (Some [3, 4]) = Inr m
      \<and> GlobalEpistasisModel_fit m = Inr m'
      \<and> m' = m\<lparr>Interactions_values := Some [1, 1 / 2]\<rparr>)
   \<and> (\<exists>m m'. GlobalEpistasisModel_init ''0'' [''0'', ''1''] [1, 3] (Some [3, 4]) = Inr m
      \<and> GlobalEpistasisModel_fit_error m = Inr m'
      \<and> m' = m\<lparr>Interactions_errors := Some [5 / 2, 5 / 2]\<rparr>
      \<and> self_X m' = self_X m \<and> self_X_inv m' = self_X_inv m)
   \<and> (\<exists>m. LocalEpistasisModel_init ''0'' [''0'', ''1''] [1, 3] (Some [3, 4]) = Inr m
      \<and> self_X_inv (after_methods LocalEpistasisModel_method [Fit, Fit_error, Fit] m)
          = self_X_inv m
      \<and> Call_linalg_inv
          \<notin> set (calls_of_methods LocalEpistasisModel_method LocalEpistasisModel_method_calls
                    [Fit, Fit_error, Fit] m))"
proof -
  let ?ml = "\<lparr> self_wildtype = ''0'', Binary_genotypes = [''0'', ''1''],
           Binary_phenotypes = [1, 3], Binary_errors = Some [3, 4],
           self_length = 1, self_n = 2, self_order = 1,
           Interactions_labels = [[], [1]],
           Interactions_values = None, Interactions_errors = None,
           self_X = [[1, 0], [1, 1]], self_X_inv = [[1, 0], [- 1, 1]] \<rparr>"
  let ?mg = "\<lparr> self_wildtype = ''0'', Binary_genotypes = [''0'', ''1''],
           Binary_phenotypes = [1, 3], Binary_errors = Some [3, 4],
           self_length = 1, self_n = 2, self_order = 1,
           Interactions_labels = [[], [1]],
           Interactions_values = None, Interactions_errors = None,
           self_X = [[1, - 1], [1, 1]], self_X_inv = [[1 / 2, 1 / 2], [- 1 / 2, 1 / 2]] \<rparr>"
  have s9: "sqrt 9 = 3" and s25: "sqrt 25 = 5"
    using real_sqrt_abs [of 3] real_sqrt_abs [of 5] by simp_all
  have s254: "sqrt (25 / 4) = 5 / 2" using real_sqrt_abs [of "5 / 2"] by (simp add: power2_eq_square)
  have lfit: "LocalEpistasisModel_fit ?ml = Inr (?ml\<lparr>Interactions_values := Some [1, 2]\<rparr>)"
    by code_simp
  have gfit: "GlobalEpistasisModel_fit ?mg = Inr (?mg\<lparr>Interactions_values := Some [1, 1 / 2]\<rparr>)"
    by code_simp
  have lerr: "LocalEpistasisModel_fit_error ?ml = Inr (?ml\<lparr>Interactions_errors := Some [3, 5]\<rparr>)"
    by (simp add: LocalEpistasisModel_fit_error_def np_dot_def mat_vec_def dotp_def s9 s25)
  have gerr: "GlobalEpistasisModel_fit_error ?mg
                = Inr (?mg\<lparr>Interactions_errors := Some [5 / 2, 5 / 2]\<rparr>)"
    by (simp add: GlobalEpistasisModel_fit_error_def np_dot_def mat_vec_def dotp_def
        power2_eq_square s254)
  note l1 = fit_changes_coefficients_only [of ?ml "?ml\<lparr>Interactions_values := Some [1, 2]\<rparr>"
      "''0''" "[''0'', ''1'']" "[1, 3]" "Some [3, 4]" "[Fit, Fit_error, Fit]"]
  note l2 = fit_changes_coefficients_only [of ?ml "?ml\<lparr>Interactions_errors := Some [3, 5]\<rparr>"]
  note g1 = fit_changes_coefficients_only [of ?mg "?mg\<lparr>Interactions_values := Some [1, 1 / 2]\<rparr>"]
  note g2 = fit_changes_coefficients_only [of ?mg "?mg\<lparr>Interactions_errors := Some [5 / 2, 5 / 2]\<rparr>"]
  have a: "\<exists>m m'. LocalEpistasisModel_init ''0'' [''0'', ''1''] [1, 3] (Some [3, 4]) = Inr m
      \<and> LocalEpistasisModel_init_calls ''0'' [''0'', ''1''] [1, 3] (Some [3, 4])
          = [Call_generate_dv_matrix, Call_linalg_inv]
      \<and> LocalEpistasisModel_fit m = Inr m'
      \<and> m' = m\<lparr>Interactions_values := Some [1, 2]\<rparr>
      \<and> LocalEpistasisModel_fit m' = Inr m'"
    using l1 local_example lfit by blast
  have b: "\<exists>m m'. LocalEpistasisModel_init ''0'' [''0'', ''1''] [1, 3] (Some [3, 4]) = Inr m
      \<and> LocalEpistasisModel_fit_error m = Inr m'
      \<and> m' = m\<lparr>Interactions_errors := Some [3, 5]\<rparr>
      \<and> self_X m' = self_X m \<and> self_X_inv m' = self_X_inv m"
    using l2 local_example lerr by blast
  have c: "\<exists>m m'. GlobalEpistasisModel_init ''0'' [''0'', ''1''] [1, 3] (Some [3, 4]) = Inr m
      \<and> GlobalEpistasisModel_fit m = Inr m'
      \<and> m' = m\<lparr>Interactions_values := Some [1, 1 / 2]\<rparr>"
    using g1 global_example gfit by blast
  have d: "\<exists>m m'. GlobalEpistasisModel_init ''0'' [''0'', ''1''] [1, 3] (Some [3, 4]) = Inr m
      \<and> GlobalEpistasisModel_fit_error m = Inr m'
      \<and> m' = m\<lparr>Interactions_errors := Some [5 / 2, 5 / 2]\<rparr>
      \<and> self_X m' = self_X m \<and> self_X_inv m' = self_X_inv m"
    using g2 global_example gerr by blast
  have e: "\<exists>m. LocalEpistasisModel_init ''0'' [''0'', ''1''] [1, 3] (Some [3, 4]) = Inr m
      \<and> self_X_inv (after_methods LocalEpistasisModel_method [Fit, Fit_error, Fit] m)
          = self_X_inv m
      \<and> Call_linalg_inv
          \<notin> set (calls_of_methods LocalEpistasisModel_method LocalEpistasisModel_method_calls
                    [Fit, Fit_error, Fit] m)"
    using l1 local_example by blast
  from a b c d e show ?thesis by (intro conjI)
qed

subsection \<open>\<open>fit_error\<close> without phenotype errors\<close>

text \<open>
  Claim C8. On a model without phenotype errors \<open>fit_error\<close> raises, for both variants;
  on a model constructed without them the exception is the TypeError of squaring the
  missing vector. No error vector is written and no zero is substituted.
\<close>

theorem fit_error_without_errors_fails:
  "(Binary_errors m = None \<longrightarrow>
      isl (LocalEpistasisModel_fit_error m) \<and> isl (GlobalEpistasisModel_fit_error m))
   \<and> (LocalEpistasisModel_init wildtype genotypes phenotypes None = Inr m \<longrightarrow>
        LocalEpistasisModel_fit_error m = Inl TypeError)
   \<and> (GlobalEpistasisModel_init wildtype genotypes phenotypes None = Inr m \<longrightarrow>
        GlobalEpistasisModel_fit_error m = Inl TypeError)"
proof (intro conjI impI)
  assume "Binary_errors m = None"
  then show "isl (LocalEpistasisModel_fit_error m)" "isl (GlobalEpistasisModel_fit_error m)"
    by (simp_all add: LocalEpistasisModel_fit_error_def GlobalEpistasisModel_fit_error_def)
next
  assume "LocalEpistasisModel_init wildtype genotypes phenotypes None = Inr m"
  then have "Binary_errors m = None"
    using EpistasisModel_init_Inr(3) by (simp add: LocalEpistasisModel_init_eq)
  then show "LocalEpistasisModel_fit_error m = Inl TypeError"
    by (simp add: LocalEpistasisModel_fit_error_def)
next
  assume "GlobalEpistasisModel_init wildtype genotypes phenotypes None = Inr m"
  then have init: "EpistasisModel_init [(CHR ''1'', 1), (CHR ''0'', - 1)] wildtype genotypes
      phenotypes None = Inr m"
    by (simp add: GlobalEpistasisModel_init_eq)
  show "GlobalEpistasisModel_fit_error m = Inl TypeError"
    using EpistasisModel_init_Inr(3,4) [OF init] EpistasisModel_init_square(1) [OF init]
    by (simp add: GlobalEpistasisModel_fit_error_def)
qed

theorem fit_error_without_errors_fails_witness:
  "and_then (LocalEpistasisModel_init ''0'' [''0'', ''1''] [1, 3] None)
      LocalEpistasisModel_fit_error = Inl TypeError
   \<and> and_then (GlobalEpistasisModel_init ''0'' [''0'', ''1''] [1, 3] None)
      GlobalEpistasisModel_fit_error = Inl TypeError"
proof -
  obtain ml where ml: "LocalEpistasisModel_init ''0'' [''0'', ''1''] [1, 3] None = Inr ml"
    using local_example_no_errors
    by (cases "LocalEpistasisModel_init ''0'' [''0'', ''1''] [1, 3] None") auto
  obtain mg where mg: "GlobalEpistasisModel_init ''0'' [''0'', ''1''] [1, 3] None = Inr mg"
    using global_example_no_errors
    by (cases "GlobalEpistasisModel_init ''0'' [''0'', ''1''] [1, 3] None") auto
  show ?thesis
    using fit_error_without_errors_fails [of ml "''0''" "[''0'', ''1'']" "[1, 3]"]
      fit_error_without_errors_fails [of mg "''0''" "[''0'', ''1'']" "[1, 3]"] ml mg
    by (simp add: and_then_def)
qed

subsection \<open>Singular designs\<close>

text \<open>
  Claim C7. For every genotype set whose design matrix is singular, model construction
  raises LinAlgError, for both variants: when the genotype count differs from the label
  count (an incomplete set), when a genotype occurs twice (duplicate rows), and in
  general when the matrix has no inverse. A data-validity error of the matrix builder is
  passed on. Whenever a model is returned, its \<open>X_inv\<close> is the inverse of its \<open>X\<close> on both
  sides, so no wrong coefficients can follow from it. Arithmetic is exact here:
  nearness to singularity and NaN are properties of floating-point numbers that this
  statement does not speak of.
\<close>

theorem singular_design_raises:
  assumes "enumerate_labels (length wildtype) (length wildtype) = Inr labels"
  shows "(generate_dv_matrix genotypes labels [(CHR ''1'', 1), (CHR ''0'', 0)] = Inr Xl \<longrightarrow>
            length genotypes \<noteq> length labels
            \<or> (\<exists>i j. i < j \<and> j < length genotypes \<and> genotypes ! i = genotypes ! j)
            \<or> \<not> (\<exists>Y. mat_mul Xl Y = identity_matrix (length Xl)
                     \<and> mat_mul Y Xl = identity_matrix (length Xl)) \<longrightarrow>
            LocalEpistasisModel_init wildtype genotypes phenotypes errors = Inl LinAlgError)
       \<and> (generate_dv_matrix genotypes labels [(CHR ''1'', 1), (CHR ''0'', - 1)] = Inr Xg \<longrightarrow>
            length genotypes \<noteq> length labels
            \<or> (\<exists>i j. i < j \<and> j < length genotypes \<and> genotypes ! i = genotypes ! j)
            \<or> \<not> (\<exists>Y. mat_mul Xg Y = identity_matrix (length Xg)
                     \<and> mat_mul Y Xg = identity_matrix (length Xg)) \<longrightarrow>
            GlobalEpistasisModel_init wildtype genotypes phenotypes errors = Inl LinAlgError)
       \<and> (generate_dv_matrix genotypes labels [(CHR ''1'', 1), (CHR ''0'', 0)] = Inl e \<longrightarrow>
            LocalEpistasisModel_init wildtype genotypes phenotypes errors = Inl e)
       \<and> (generate_dv_matrix genotypes labels [(CHR ''1'', 1), (CHR ''0'', - 1)] = Inl e \<longrightarrow>
            GlobalEpistasisModel_init wildtype genotypes phenotypes errors = Inl e)
       \<and> (LocalEpistasisModel_init wildtype genotypes phenotypes errors = Inr m \<longrightarrow>
            mat_mul (self_X m) (self_X_inv m) = identity_matrix (length genotypes)
            \<and> mat_mul (self_X_inv m) (self_X m) = identity_matrix (length genotypes))
       \<and> (GlobalEpistasisModel_init wildtype genotypes phenotypes errors = Inr m \<longrightarrow>
            mat_mul (self_X m) (self_X_inv m) = identity_matrix (length genotypes)
            \<and> mat_mul (self_X_inv m) (self_X m) = identity_matrix (length genotypes))"
proof -
  have raises: "EpistasisModel_init enc wildtype genotypes phenotypes errors = Inl LinAlgError"
    if gen: "generate_dv_matrix genotypes labels enc = Inr X"
      and sing: "length genotypes \<noteq> length labels
            \<or> (\<exists>i j. i < j \<and> j < length genotypes \<and> genotypes ! i = genotypes ! j)
            \<or> \<not> (\<exists>Y. mat_mul X Y = identity_matrix (length X)
                     \<and> mat_mul Y X = identity_matrix (length X))"
    for enc X
  proof -
    consider "length genotypes \<noteq> length labels"
      | "\<exists>i j. i < j \<and> j < length genotypes \<and> genotypes ! i = genotypes ! j"
      | "\<not> (\<exists>Y. mat_mul X Y = identity_matrix (length X)
                     \<and> mat_mul Y X = identity_matrix (length X))"
      using sing by blast
    then show ?thesis
    proof cases
      case 1
      then show ?thesis by (rule EpistasisModel_init_incomplete [OF assms gen])
    next
      case 2
      then show ?thesis using EpistasisModel_init_duplicate [OF assms gen] by blast
    next
      case 3
      have "linalg_inv X = Inl LinAlgError"
      proof (cases "linalg_inv X")
        case (Inl e)
        then show ?thesis using linalg_inv_Inl by blast
      next
        case (Inr B)
        then show ?thesis using linalg_inv_inverse [OF Inr] 3 by blast
      qed
      then show ?thesis using assms gen by (simp add: EpistasisModel_init_def)
    qed
  qed
  have passes: "EpistasisModel_init enc wildtype genotypes phenotypes errors = Inl e"
    if "generate_dv_matrix genotypes labels enc = Inl e" for enc
    using that assms by (simp add: EpistasisModel_init_def)
  have inv: "mat_mul (self_X m) (self_X_inv m) = identity_matrix (length genotypes)
          \<and> mat_mul (self_X_inv m) (self_X m) = identity_matrix (length genotypes)"
    if "EpistasisModel_init enc wildtype genotypes phenotypes errors = Inr m" for enc
    using linalg_inv_inverse [OF EpistasisModel_init_Inr(11) [OF that]]
      EpistasisModel_init_square(2) [OF that] by simp
  show ?thesis
    using raises passes inv
    by (simp add: LocalEpistasisModel_init_eq GlobalEpistasisModel_init_eq)
qed

theorem singular_design_raises_witness:
  "LocalEpistasisModel_init ''0'' [''0'', ''0''] [1, 3] None = Inl LinAlgError
   \<and> GlobalEpistasisModel_init ''0'' [''0'', ''0''] [1, 3] None = Inl LinAlgError
   \<and> LocalEpistasisModel_init ''0'' [''0''] [1] None = Inl LinAlgError
   \<and> GlobalEpistasisModel_init ''0'' [''0''] [1] None = Inl LinAlgError"
proof -
  have labels: "enumerate_labels (length ''0'') (length ''0'') = Inr [[], [1]]" by code_simp
  have dl: "generate_dv_matrix [''0'', ''0''] [[], [1]] [(CHR ''1'', 1), (CHR ''0'', 0)]
              = Inr [[1, 0], [1, 0]]" by code_simp
  have dg: "generate_dv_matrix [''0'', ''0''] [[], [1]] [(CHR ''1'', 1), (CHR ''0'', - 1)]
              = Inr [[1, - 1], [1, - 1]]" by code_simp
  have il: "generate_dv_matrix [''0''] [[], [1]] [(CHR ''1'', 1), (CHR ''0'', 0)]
              = Inr [[1, 0]]" by code_simp
  have ig: "generate_dv_matrix [''0''] [[], [1]] [(CHR ''1'', 1), (CHR ''0'', - 1)]
              = Inr [[1, - 1]]" by code_simp
  have dup: "\<exists>i j. i < j \<and> j < length [''0'', ''0''] \<and> [''0'', ''0''] ! i = [''0'', ''0''] ! j"
    by (intro exI [of _ 0] exI [of _ 1]) simp
  note d = singular_design_raises [OF labels, where genotypes = "[''0'', ''0'']"
      and Xl = "[[1, 0], [1, 0]]" and Xg = "[[1, - 1], [1, - 1]]" and phenotypes = "[1, 3]"
      and errors = None]
  note i = singular_design_raises [OF labels, where genotypes = "[''0'']"
      and Xl = "[[1, 0]]" and Xg = "[[1, - 1]]" and phenotypes = "[1]" and errors = None]
  have "LocalEpistasisModel_init ''0'' [''0'', ''0''] [1, 3] None = Inl LinAlgError"
    using d dl dup by blast
  moreover have "GlobalEpistasisModel_init ''0'' [''0'', ''0''] [1, 3] None = Inl LinAlgError"
    using d dg dup by blast
  moreover have "LocalEpistasisModel_init ''0'' [''0''] [1] None = Inl LinAlgError"
    using i il by simp
  moreover have "GlobalEpistasisModel_init ''0'' [''0''] [1] None = Inl LinAlgError"
    using i ig by simp
  ultimately show ?thesis by (intro conjI)
qed

end
